theory Spec2Isabelle
  imports Complex_Main "HOL-Library.Sublist"
begin

section \<open>Strings, numbers and dates of the script\<close>

text \<open>
  A JavaScript string is modelled as a \<^typ>\<open>string\<close>, one \<^typ>\<open>char\<close> per code unit; code
  units above 255 are not represented (none of them is a digit or a letter of the classes
  below). The three character classes of the regular expression
  \<^verbatim>\<open>/(\d+)\s*([a-zA-Z]+)/\<close> are given by code unit: \<^verbatim>\<open>\d\<close> is 0-9, \<^verbatim>\<open>[a-zA-Z]\<close> the
  ASCII letters, and \<^verbatim>\<open>\s\<close> the white space and line terminators TAB, LF, VT, FF, CR, SP
  and NBSP.
\<close>

definition is_digit :: "char \<Rightarrow> bool" where
  "is_digit c = (48 \<le> (of_char c :: nat) \<and> (of_char c :: nat) \<le> 57)"

definition is_alpha :: "char \<Rightarrow> bool" where
  "is_alpha c =
     ((65 \<le> (of_char c :: nat) \<and> (of_char c :: nat) \<le> 90) \<or>
      (97 \<le> (of_char c :: nat) \<and> (of_char c :: nat) \<le> 122))"

definition is_space :: "char \<Rightarrow> bool" where
  "is_space c =
     ((9 \<le> (of_char c :: nat) \<and> (of_char c :: nat) \<le> 13) \<or>
      (of_char c :: nat) = 32 \<or> (of_char c :: nat) = 160)"

text \<open>
  \<^verbatim>\<open>String.prototype.toLowerCase\<close>, on the ASCII letters (the only characters the unit
  captured by \<^verbatim>\<open>[a-zA-Z]+\<close> can hold).
\<close>

definition toLowerCase_char :: "char \<Rightarrow> char" where
  "toLowerCase_char c =
     (case map_of (zip ''ABCDEFGHIJKLMNOPQRSTUVWXYZ'' ''abcdefghijklmnopqrstuvwxyz'') c of
        Some l \<Rightarrow> l
      | None \<Rightarrow> c)"

definition toLowerCase :: "string \<Rightarrow> string" where
  "toLowerCase s = map toLowerCase_char s"

text \<open>\<^verbatim>\<open>s.replace(/s$/, '')\<close>: one trailing \<^verbatim>\<open>s\<close> is removed, if there is one.\<close>

definition replace_trailing_s :: "string \<Rightarrow> string" where
  "replace_trailing_s s = (if s \<noteq> [] \<and> last s = CHR ''s'' then butlast s else s)"

text \<open>\<^verbatim>\<open>s.includes(t)\<close>: \<^verbatim>\<open>t\<close> occurs in \<^verbatim>\<open>s\<close> as a contiguous substring.\<close>

definition js_includes :: "string \<Rightarrow> string \<Rightarrow> bool" where
  "js_includes s t = sublist t s"

text \<open>
  A JavaScript number of this program is an integer, or \<^verbatim>\<open>NaN\<close> (\<^const>\<open>None\<close>). The
  script's numbers are IEEE doubles, which hold every integer below \<open>2^53\<close> exactly. The
  parsers multiply by multiples of 1000 and subtract from a valid date: a product that a
  double has to round (also \<^verbatim>\<open>Infinity\<close>) is so large that the difference lies beyond the
  range of a \<^verbatim>\<open>Date\<close>, \<open>8.64 * 10^15\<close> ms on either side of the epoch, where
  \<^verbatim>\<open>new Date\<close> gives the invalid date whatever the rounding was. So unbounded integers
  give the same dates.
\<close>

type_synonym js_number = "int option"

definition js_mul :: "js_number \<Rightarrow> js_number \<Rightarrow> js_number" where
  "js_mul a b = (case a of None \<Rightarrow> None | Some x \<Rightarrow> (case b of None \<Rightarrow> None | Some y \<Rightarrow> Some (x * y)))"

definition js_sub :: "js_number \<Rightarrow> js_number \<Rightarrow> js_number" where
  "js_sub a b = (case a of None \<Rightarrow> None | Some x \<Rightarrow> (case b of None \<Rightarrow> None | Some y \<Rightarrow> Some (x - y)))"

text \<open>
  A \<^verbatim>\<open>Date\<close> is its time value: milliseconds since the epoch, or \<^verbatim>\<open>NaN\<close> for the invalid
  date. \<^verbatim>\<open>new Date(v)\<close> clips the number \<^verbatim>\<open>v\<close> (the specification's TimeClip).
\<close>

type_synonym date = "int option"

definition TimeClip :: "int \<Rightarrow> date" where
  "TimeClip t = (if \<bar>t\<bar> > 8640000000000000 then None else Some t)"

definition new_Date :: "js_number \<Rightarrow> date" where
  "new_Date v = (case v of None \<Rightarrow> None | Some t \<Rightarrow> TimeClip t)"

text \<open>
  \<^verbatim>\<open>parseInt(string)\<close> with no radix: leading white space is dropped, then a sign, then
  the prefix \<^verbatim>\<open>0x\<close> or \<^verbatim>\<open>0X\<close> selects radix 16 (radix 10 otherwise); the value is that of the
  longest run of digits of the radix, \<^verbatim>\<open>NaN\<close> when the run is empty.
\<close>

definition digit_of :: "nat \<Rightarrow> char \<Rightarrow> nat option" where
  "digit_of R c =
     (let n = (of_char c :: nat);
          v = (if 48 \<le> n \<and> n \<le> 57 then Some (n - 48)
               else if 97 \<le> n \<and> n \<le> 102 then Some (n - 87)
               else if 65 \<le> n \<and> n \<le> 70 then Some (n - 55)
               else None)
      in case v of None \<Rightarrow> None | Some d \<Rightarrow> if d < R then Some d else None)"

definition digit_val :: "nat \<Rightarrow> char \<Rightarrow> int" where
  "digit_val R c = (case digit_of R c of None \<Rightarrow> 0 | Some d \<Rightarrow> int d)"

definition radix_value :: "nat \<Rightarrow> string \<Rightarrow> int" where
  "radix_value R Z = foldl (\<lambda>a c. int R * a + digit_val R c) 0 Z"

definition parseInt :: "string \<Rightarrow> js_number" where
  "parseInt inputString =
     (let S = dropWhile is_space inputString;
          sign = (if S \<noteq> [] \<and> hd S = CHR ''-'' then - 1 else 1 :: int);
          S1 = (if S \<noteq> [] \<and> (hd S = CHR ''+'' \<or> hd S = CHR ''-'') then tl S else S);
          hex = (case S1 of
                   a # b # _ \<Rightarrow> a = CHR ''0'' \<and> (b = CHR ''x'' \<or> b = CHR ''X'')
                 | _ \<Rightarrow> False);
          R = (if hex then 16 else 10);
          S2 = (if hex then drop 2 S1 else S1);
          Z = takeWhile (\<lambda>c. digit_of R c \<noteq> None) S2
      in if Z = [] then None else Some (sign * radix_value R Z))"

section \<open>The time expression parser of index.js\<close>

text \<open>
  \<^verbatim>\<open>timeText.match(/(\d+)\s*([a-zA-Z]+)/)\<close>. The expression is not anchored: the match is
  tried at every position from the left, and the first position where it succeeds gives the
  two captures. At one position the three greedy parts have one way to match only, since no
  character is in two of the three classes: giving back a digit or a space leaves a digit or
  a space where a space or a letter is needed.
\<close>

definition match_here :: "string \<Rightarrow> (string \<times> string) option" where
  "match_here s =
     (let number = takeWhile is_digit s;
          unit = takeWhile is_alpha (dropWhile is_space (dropWhile is_digit s))
      in if number = [] \<or> unit = [] then None else Some (number, unit))"

fun str_match :: "string \<Rightarrow> (string \<times> string) option" where
  "str_match [] = None"
| "str_match (c # cs) =
     (case match_here (c # cs) of
        Some m \<Rightarrow> Some m
      | None \<Rightarrow> str_match cs)"

text \<open>
  The table \<^verbatim>\<open>multipliers\<close> is an object literal, and \<^verbatim>\<open>multipliers[normalizedUnit]\<close> an
  ordinary property read: it finds the five own properties, and also what every object
  inherits from \<^verbatim>\<open>Object.prototype\<close>. The normalized unit is made of lower-case ASCII
  letters, and the one inherited property with such a name is \<^verbatim>\<open>constructor\<close>, whose value
  is the function \<^verbatim>\<open>Object\<close>.
\<close>

datatype js_value = Undefined | Number int | ObjectFunction

definition multipliers :: "string \<Rightarrow> js_value" where
  "multipliers k =
     (if k = ''minute'' then Number (60 * 1000)
      else if k = ''hour'' then Number (60 * 60 * 1000)
      else if k = ''day'' then Number (24 * 60 * 60 * 1000)
      else if k = ''month'' then Number (30 * 24 * 60 * 60 * 1000)
      else if k = ''year'' then Number (365 * 24 * 60 * 60 * 1000)
      else if k = ''constructor'' then ObjectFunction
      else Undefined)"

text \<open>Truthiness (for \<^verbatim>\<open>!multiplier\<close>) and the conversion to a number (for \<^verbatim>\<open>*\<close>).\<close>

fun ToBoolean :: "js_value \<Rightarrow> bool" where
  "ToBoolean Undefined = False"
| "ToBoolean (Number n) = (n \<noteq> 0)"
| "ToBoolean ObjectFunction = True"

fun ToNumber :: "js_value \<Rightarrow> js_number" where
  "ToNumber Undefined = None"
| "ToNumber (Number n) = Some n"
| "ToNumber ObjectFunction = None"

text \<open>A thrown error, with its \<^verbatim>\<open>message\<close>.\<close>

datatype exn = Exn string

fun error_message :: "exn \<Rightarrow> string" where
  "error_message (Exn m) = m"

text \<open>
  A line written through \<^verbatim>\<open>logger\<close> or \<^verbatim>\<open>console\<close>: one constructor per message
  template of the two scripts, with the values the template interpolates (for
  \<^verbatim>\<open>error.stack\<close> and for an error printed as such, the error).
\<close>

datatype message =
    UnknownTimeUnit string string
  | Navigating
  | CollectingArticleData
  | Collected nat
  | AttemptFailed nat int
  | SkippingIdentical "string option" "string option" "string option"
  | ValidationPassed int
  | ValidationFailed
  | SortingErrors
  | PositionTimeDifference nat "int option"
  | Earlier "string option" "string option"
  | Later "string option" "string option"
  | ScreenshotSaved string int
  | ErrorOccurred string
  | ErrorStack exn
  | ErrorScreenshotSaved string int
  | ScreenshotFailed string
  | TotalExecutionTime int
  | SortingErrorAt nat
  | ArticleLine "string option" "string option"
  | ValidationPassedPlain
  | ValidationFailedPlain
  | ErrorOccurredPlain exn

text \<open>
  \<^verbatim>\<open>parseTimeAgo\<close> (index.js). The argument \<open>now\<close> is the value of \<^verbatim>\<open>new Date()\<close> on the
  function's first line, always a valid date. The result is the date returned and the lines
  the function passes to \<^verbatim>\<open>logger.error\<close>.
\<close>

definition parseTimeAgo :: "int \<Rightarrow> string \<Rightarrow> date \<times> message list" where
  "parseTimeAgo now timeText =
     (case str_match timeText of
        None \<Rightarrow> (Some now, [])
      | Some (number, unit) \<Rightarrow>
          (let val = parseInt number;
               normalizedUnit = replace_trailing_s (toLowerCase unit);
               multiplier = multipliers normalizedUnit
           in if \<not> ToBoolean multiplier
              then (Some now, [UnknownTimeUnit unit timeText])
              else (new_Date (js_sub (Some now) (js_mul val (ToNumber multiplier))), [])))"

section \<open>The time expression parser of the plain script\<close>

text \<open>
  The repository holds a second, plainer variant of the script, without logger, retry and
  screenshots; its functions carry the suffix \<open>plain\<close> here. Its \<^verbatim>\<open>parseTimeAgo\<close> applies
  \<^verbatim>\<open>parseInt\<close> to the whole label and finds the unit by \<^verbatim>\<open>includes\<close>, in the order
  minute, hour, day, month, year.
\<close>

definition parseTimeAgo_plain :: "int \<Rightarrow> string \<Rightarrow> date" where
  "parseTimeAgo_plain now timeText =
     (let number = parseInt timeText in
      if js_includes timeText ''minute'' then
        new_Date (js_sub (Some now) (js_mul (js_mul number (Some 60)) (Some 1000)))
      else if js_includes timeText ''hour'' then
        new_Date (js_sub (Some now) (js_mul (js_mul (js_mul number (Some 60)) (Some 60)) (Some 1000)))
      else if js_includes timeText ''day'' then
        new_Date (js_sub (Some now)
          (js_mul (js_mul (js_mul (js_mul number (Some 24)) (Some 60)) (Some 60)) (Some 1000)))
      else if js_includes timeText ''month'' then
        new_Date (js_sub (Some now)
          (js_mul (js_mul (js_mul (js_mul (js_mul number (Some 30)) (Some 24)) (Some 60)) (Some 60))
             (Some 1000)))
      else if js_includes timeText ''year'' then
        new_Date (js_sub (Some now)
          (js_mul (js_mul (js_mul (js_mul (js_mul number (Some 365)) (Some 24)) (Some 60)) (Some 60))
             (Some 1000)))
      else Some now)"

section \<open>The ordering check\<close>

text \<open>
  An entry of \<^verbatim>\<open>articles\<close>. Both texts come from \<^verbatim>\<open>textContent()\<close>, which gives a
  string or \<^verbatim>\<open>null\<close> (\<^const>\<open>None\<close>).
\<close>

record article =
  title :: "string option"
  timeText :: "string option"
  timestamp :: date

record sorting_error =
  position :: nat
  article1 :: article
  article2 :: article
  timeDiff :: "int option"

record verdict =
  isSorted :: bool
  sortingErrors :: "sorting_error list"
  infos :: "message list"

text \<open>
  Comparisons of dates go through their time values; with \<^verbatim>\<open>NaN\<close> on either side both
  \<^verbatim>\<open>===\<close> and \<^verbatim>\<open>>\<close> are false.
\<close>

definition date_eq :: "date \<Rightarrow> date \<Rightarrow> bool" where
  "date_eq a b = (case a of None \<Rightarrow> False | Some x \<Rightarrow> (case b of None \<Rightarrow> False | Some y \<Rightarrow> x = y))"

definition date_gt :: "date \<Rightarrow> date \<Rightarrow> bool" where
  "date_gt a b = (case a of None \<Rightarrow> False | Some x \<Rightarrow> (case b of None \<Rightarrow> False | Some y \<Rightarrow> x > y))"

text \<open>
  The time difference of an error is \<^verbatim>\<open>Math.round((curr.timestamp - prev.timestamp) / 1000 / 60)\<close>,
  computed in IEEE doubles: the difference of the two time values and each of the two
  quotients is rounded to the nearest double, a tie to the one with the even significand.
  A double is given by the rational number it holds. \<open>to_double\<close> rounds a rational number
  to 53 significant bits: \<open>binade q\<close> is the exponent \<open>e\<close> with \<open>2^e \<le> q < 2^(e+1)\<close>, and the
  number is rounded to a multiple of \<open>2^(e-52)\<close>. (Overflow and subnormal numbers do not
  occur: the quotients of a difference of time values lie between \<open>10^-5\<close> and \<open>10^17\<close>.)
\<close>

definition rne :: "rat \<Rightarrow> int" where
  "rne t =
     (let f = \<lfloor>t\<rfloor> in
      if t - of_int f < 1 / 2 then f
      else if 1 / 2 < t - of_int f then f + 1
      else if even f then f else f + 1)"

function binade_up :: "rat \<Rightarrow> int" where
  "binade_up q = (if 2 \<le> q then binade_up (q / 2) + 1 else 0)"
  by pat_completeness auto
termination
proof (relation "measure (\<lambda>q. nat \<lfloor>q\<rfloor>)")
  show "wf (measure (\<lambda>q::rat. nat \<lfloor>q\<rfloor>))" by simp
next
  fix q :: rat
  assume q: "2 \<le> q"
  have "q / 2 \<le> q - 1" using q by simp
  then have "\<lfloor>q / 2\<rfloor> \<le> \<lfloor>q - 1\<rfloor>" by (rule floor_mono)
  moreover have "2 \<le> \<lfloor>q\<rfloor>" using q by (simp add: le_floor_iff)
  ultimately show "(q / 2, q) \<in> measure (\<lambda>q. nat \<lfloor>q\<rfloor>)" by simp
qed

function binade_down :: "rat \<Rightarrow> int" where
  "binade_down q = (if 0 < q \<and> q < 1 then binade_down (2 * q) - 1 else 0)"
  by pat_completeness auto
termination
proof (relation "measure (\<lambda>q. nat \<lceil>1 / q\<rceil>)")
  show "wf (measure (\<lambda>q::rat. nat \<lceil>1 / q\<rceil>))" by simp
next
  fix q :: rat
  assume q: "0 < q \<and> q < 1"
  define a where "a = 1 / q"
  have a: "1 < a" using q by (simp add: a_def)
  then have c: "2 \<le> \<lceil>a\<rceil>" by (simp add: le_ceiling_iff)
  have "a \<le> of_int \<lceil>a\<rceil>" by (rule le_of_int_ceiling)
  then have "a / 2 \<le> of_int \<lceil>a\<rceil> / 2" by simp
  also have "\<dots> \<le> of_int (\<lceil>a\<rceil> - 1)" using c by simp
  finally have "a / 2 \<le> of_int (\<lceil>a\<rceil> - 1)" .
  then have "\<lceil>a / 2\<rceil> \<le> \<lceil>a\<rceil> - 1" by (rule ceiling_le)
  then have "\<lceil>1 / (2 * q)\<rceil> \<le> \<lceil>1 / q\<rceil> - 1"
    by (simp add: a_def mult.commute)
  moreover have "0 < \<lceil>1 / q\<rceil>" using c unfolding a_def by linarith
  ultimately have "nat \<lceil>1 / (2 * q)\<rceil> < nat \<lceil>1 / q\<rceil>" by linarith
  then show "(2 * q, q) \<in> measure (\<lambda>q. nat \<lceil>1 / q\<rceil>)"
    by (simp only: in_measure)
qed

definition binade :: "rat \<Rightarrow> int" where
  "binade q = (if 1 \<le> q then binade_up q else binade_down q)"

definition to_double :: "rat \<Rightarrow> rat" where
  "to_double q =
     (if q = 0 then 0
      else sgn q * of_int (rne (\<bar>q\<bar> / 2 powi (binade \<bar>q\<bar> - 52))) * 2 powi (binade \<bar>q\<bar> - 52))"

text \<open>The operators \<^verbatim>\<open>-\<close> (on two time values) and \<^verbatim>\<open>/\<close>, and \<^verbatim>\<open>Math.round\<close>.\<close>

definition double_sub :: "int \<Rightarrow> int \<Rightarrow> rat" where
  "double_sub a b = to_double (of_int (a - b))"

definition double_div :: "rat \<Rightarrow> rat \<Rightarrow> rat" where
  "double_div a b = to_double (a / b)"

definition Math_round :: "rat \<Rightarrow> int" where
  "Math_round x = \<lfloor>x + 1 / 2\<rfloor>"

definition timeDiff_minutes :: "date \<Rightarrow> date \<Rightarrow> int option" where
  "timeDiff_minutes later earlier =
     (case later of
        None \<Rightarrow> None
      | Some x \<Rightarrow>
          (case earlier of
             None \<Rightarrow> None
           | Some y \<Rightarrow> Some (Math_round (double_div (double_div (double_sub x y) 1000) 60))))"

function sorting_loop :: "article list \<Rightarrow> nat \<Rightarrow> verdict \<Rightarrow> verdict" where
  "sorting_loop articles i v =
     (if i < length articles then
        (let curr = articles ! i; prev = articles ! (i - 1) in
         if date_eq (timestamp curr) (timestamp prev) then
           sorting_loop articles (i + 1)
             (v\<lparr>infos := infos v @ [SkippingIdentical (timeText curr) (title prev) (title curr)]\<rparr>)
         else if date_gt (timestamp curr) (timestamp prev) then
           v\<lparr>sortingErrors := sortingErrors v @
                [\<lparr>position = i, article1 = prev, article2 = curr,
                  timeDiff = timeDiff_minutes (timestamp curr) (timestamp prev)\<rparr>],
             isSorted := False\<rparr>
         else sorting_loop articles (i + 1) v)
      else v)"
  by pat_completeness auto
termination
  by (relation "measure (\<lambda>(articles, i, v). length articles - i)") auto

definition verify_sorting :: "article list \<Rightarrow> verdict" where
  "verify_sorting articles =
     sorting_loop articles 1 \<lparr>isSorted = True, sortingErrors = [], infos = []\<rparr>"

text \<open>
  The loop of the plain script: no tie is skipped and no error is collected; the three lines
  go to \<^verbatim>\<open>console.error\<close> and the loop stops.
\<close>

function sorting_loop_plain :: "article list \<Rightarrow> nat \<Rightarrow> bool \<times> message list" where
  "sorting_loop_plain articles i =
     (if i < length articles then
        (if date_gt (timestamp (articles ! i)) (timestamp (articles ! (i - 1))) then
           (False,
            [SortingErrorAt i,
             ArticleLine (title (articles ! (i - 1))) (timeText (articles ! (i - 1))),
             ArticleLine (title (articles ! i)) (timeText (articles ! i))])
         else sorting_loop_plain articles (i + 1))
      else (True, []))"
  by pat_completeness auto
termination
  by (relation "measure (\<lambda>(articles, i). length articles - i)") auto

section \<open>The run\<close>

text \<open>
  What a run does to the outside is a trace of events: the calls on the browser, the page
  and the file system, the waits, and the lines written. A line written through \<^verbatim>\<open>logger\<close>
  carries the clock reading of its time stamp.
\<close>

datatype event =
    Launch
  | NewContext
  | NewPage
  | Goto
  | LocateAll
  | TitleText nat
  | AgeText nat
  | Mkdir string
  | Screenshot string int
  | Close
  | Sleep int
  | LoggerInfo int message
  | LoggerError int message
  | ConsoleLog message
  | ConsoleError message

text \<open>
  The state of a run: the number of clock readings made so far (\<^verbatim>\<open>new Date()\<close> and
  \<^verbatim>\<open>Date.now()\<close>), the trace, and whether the variable \<^verbatim>\<open>page\<close> has been assigned.
\<close>

record world =
  reads :: nat
  trace :: "event list"
  page :: bool

definition initial_world :: world where
  "initial_world = \<lparr>reads = 0, trace = [], page = False\<rparr>"

text \<open>
  The outside of a run: the clock, by the number of the reading, and the outcome of every
  call that can fail, \<^const>\<open>None\<close> or \<^const>\<open>Inr\<close> for success. Navigation and the listing
  of the rows are given by the number of the attempt, the texts by the index of the row, the
  two steps of a screenshot by its name.
\<close>

record env =
  clock :: "nat \<Rightarrow> int"
  launch_result :: "exn option"
  newContext_result :: "exn option"
  newPage_result :: "exn option"
  goto_result :: "nat \<Rightarrow> exn option"
  all_result :: "nat \<Rightarrow> exn + nat"
  title_result :: "nat \<Rightarrow> exn + string option"
  age_result :: "nat \<Rightarrow> exn + string option"
  mkdir_result :: "string \<Rightarrow> exn option"
  screenshot_result :: "string \<Rightarrow> exn option"
  close_result :: "exn option"

text \<open>An action either throws or returns a value, and leaves a new state.\<close>

type_synonym 'a io = "world \<Rightarrow> (exn + 'a) \<times> world"

definition io_return :: "'a \<Rightarrow> 'a io" where
  "io_return x = (\<lambda>w. (Inr x, w))"

definition io_throw :: "exn \<Rightarrow> 'a io" where
  "io_throw e = (\<lambda>w. (Inl e, w))"

definition io_bind :: "'a io \<Rightarrow> ('a \<Rightarrow> 'b io) \<Rightarrow> 'b io" where
  "io_bind m f = (\<lambda>w. case m w of (Inl e, w') \<Rightarrow> (Inl e, w') | (Inr x, w') \<Rightarrow> f x w')"

definition try_catch :: "'a io \<Rightarrow> (exn \<Rightarrow> 'a io) \<Rightarrow> 'a io" where
  "try_catch m h = (\<lambda>w. case m w of (Inl e, w') \<Rightarrow> h e w' | (Inr x, w') \<Rightarrow> (Inr x, w'))"

text \<open>
  \<^verbatim>\<open>try { m } finally { fin }\<close>: \<open>fin\<close> runs however \<open>m\<close> ended; the outcome is that of
  \<open>m\<close>, unless \<open>fin\<close> throws.
\<close>

definition try_finally :: "'a io \<Rightarrow> unit io \<Rightarrow> 'a io" where
  "try_finally m fin =
     (\<lambda>w. case m w of (r, w') \<Rightarrow>
        (case fin w' of (Inl e, w'') \<Rightarrow> (Inl e, w'') | (Inr _, w'') \<Rightarrow> (r, w'')))"

definition emit :: "event \<Rightarrow> unit io" where
  "emit ev = (\<lambda>w. (Inr (), w\<lparr>trace := trace w @ [ev]\<rparr>))"

text \<open>A call that can fail: the event is recorded, then the outcome decides.\<close>

definition call :: "event \<Rightarrow> exn option \<Rightarrow> unit io" where
  "call ev outcome =
     io_bind (emit ev) (\<lambda>_. case outcome of None \<Rightarrow> io_return () | Some e \<Rightarrow> io_throw e)"

definition call_value :: "event \<Rightarrow> exn + 'a \<Rightarrow> 'a io" where
  "call_value ev outcome =
     io_bind (emit ev) (\<lambda>_. case outcome of Inr x \<Rightarrow> io_return x | Inl e \<Rightarrow> io_throw e)"

definition count_event :: "event \<Rightarrow> world \<Rightarrow> nat" where
  "count_event ev w = length (filter (\<lambda>x. x = ev) (trace w))"

text \<open>\<^verbatim>\<open>new Date()\<close> and \<^verbatim>\<open>Date.now()\<close>: the next reading of the clock.\<close>

definition date_now :: "env \<Rightarrow> int io" where
  "date_now E = (\<lambda>w. (Inr (clock E (reads w)), w\<lparr>reads := reads w + 1\<rparr>))"

definition logger_info :: "env \<Rightarrow> message \<Rightarrow> unit io" where
  "logger_info E msg = io_bind (date_now E) (\<lambda>t. emit (LoggerInfo t msg))"

definition logger_error :: "env \<Rightarrow> message \<Rightarrow> unit io" where
  "logger_error E msg = io_bind (date_now E) (\<lambda>t. emit (LoggerError t msg))"

fun logger_info_all :: "env \<Rightarrow> message list \<Rightarrow> unit io" where
  "logger_info_all E [] = io_return ()"
| "logger_info_all E (m # ms) = io_bind (logger_info E m) (\<lambda>_. logger_info_all E ms)"

fun logger_error_all :: "env \<Rightarrow> message list \<Rightarrow> unit io" where
  "logger_error_all E [] = io_return ()"
| "logger_error_all E (m # ms) = io_bind (logger_error E m) (\<lambda>_. logger_error_all E ms)"

fun console_error_all :: "message list \<Rightarrow> unit io" where
  "console_error_all [] = io_return ()"
| "console_error_all (m # ms) = io_bind (emit (ConsoleError m)) (\<lambda>_. console_error_all ms)"

subsection \<open>Configuration\<close>

definition maxRetries :: nat where "maxRetries = 3"
definition retryDelay :: int where "retryDelay = 1000"
definition articleLimit :: nat where "articleLimit = 100"
definition screenshotDir :: string where "screenshotDir = ''screenshots''"

subsection \<open>retry\<close>

text \<open>
  \<^verbatim>\<open>retry(fn, retries)\<close>. The loop returns the value of the first attempt that succeeds;
  a failed attempt that is not the last one is logged and followed by a wait of
  \<^verbatim>\<open>retryDelay * 2^i\<close>; the last one throws its error. With no attempt allowed the
  function returns \<^verbatim>\<open>undefined\<close> (\<^const>\<open>None\<close>).
\<close>

function retry_loop :: "env \<Rightarrow> 'a io \<Rightarrow> nat \<Rightarrow> nat \<Rightarrow> 'a option io" where
  "retry_loop E fn retries i w =
     (if i < retries then
        (case fn w of
           (Inr x, w') \<Rightarrow> (Inr (Some x), w')
         | (Inl error, w') \<Rightarrow>
             if i = retries - 1 then (Inl error, w')
             else
               (let delay = retryDelay * 2 ^ i in
                case io_bind (logger_info E (AttemptFailed (i + 1) delay))
                       (\<lambda>_. emit (Sleep delay)) w' of
                  (Inl e, w'') \<Rightarrow> (Inl e, w'')
                | (Inr _, w'') \<Rightarrow> retry_loop E fn retries (i + 1) w''))
      else (Inr None, w))"
  by pat_completeness auto
termination
  by (relation "measure (\<lambda>(E, fn, retries, i, w). retries - i)") auto

definition retry :: "env \<Rightarrow> 'a io \<Rightarrow> nat \<Rightarrow> 'a option io" where
  "retry E fn retries = retry_loop E fn retries 0"

subsection \<open>The calls on the browser\<close>

definition chromium_launch :: "env \<Rightarrow> unit io" where
  "chromium_launch E = call Launch (launch_result E)"

definition browser_newContext :: "env \<Rightarrow> unit io" where
  "browser_newContext E = call NewContext (newContext_result E)"

definition context_newPage :: "env \<Rightarrow> unit io" where
  "context_newPage E =
     io_bind (call NewPage (newPage_result E)) (\<lambda>_ w. (Inr (), w\<lparr>page := True\<rparr>))"

definition page_goto :: "env \<Rightarrow> unit io" where
  "page_goto E = (\<lambda>w. call Goto (goto_result E (count_event Goto w)) w)"

definition locator_all :: "env \<Rightarrow> nat io" where
  "locator_all E = (\<lambda>w. call_value LocateAll (all_result E (count_event LocateAll w)) w)"

definition title_textContent :: "env \<Rightarrow> nat \<Rightarrow> string option io" where
  "title_textContent E i = call_value (TitleText i) (title_result E i)"

definition age_textContent :: "env \<Rightarrow> nat \<Rightarrow> string option io" where
  "age_textContent E i = call_value (AgeText i) (age_result E i)"

definition browser_close :: "env \<Rightarrow> unit io" where
  "browser_close E = call Close (close_result E)"

text \<open>
  \<^verbatim>\<open>captureScreenshot(page, name)\<close>: the directory \<^verbatim>\<open>CONFIG.screenshotDir\<close> is made, the
  clock read for the file name, the screenshot taken; the result stands for the file name.
\<close>

definition captureScreenshot :: "env \<Rightarrow> string \<Rightarrow> (string \<times> int) io" where
  "captureScreenshot E name =
     io_bind (call (Mkdir screenshotDir) (mkdir_result E name)) (\<lambda>_.
     io_bind (date_now E) (\<lambda>t.
     io_bind (call (Screenshot name t) (screenshot_result E name)) (\<lambda>_.
     io_return (name, t))))"

subsection \<open>Collecting the articles\<close>

text \<open>
  A call \<^verbatim>\<open>parseTimeAgo(timeText)\<close> inside the run: the function reads the clock, a
  \<^verbatim>\<open>null\<close> label makes \<^verbatim>\<open>timeText.match\<close> throw a TypeError, and the lines of the
  function go through \<^verbatim>\<open>logger.error\<close>.
\<close>

definition parseTimeAgo_call :: "env \<Rightarrow> string option \<Rightarrow> date io" where
  "parseTimeAgo_call E label =
     io_bind (date_now E) (\<lambda>now.
       case label of
         None \<Rightarrow> io_throw (Exn ''TypeError'')
       | Some text \<Rightarrow>
           io_bind (logger_error_all E (snd (parseTimeAgo now text))) (\<lambda>_.
           io_return (fst (parseTimeAgo now text))))"

definition read_row :: "env \<Rightarrow> nat \<Rightarrow> article io" where
  "read_row E i =
     io_bind (title_textContent E i) (\<lambda>title.
     io_bind (age_textContent E i) (\<lambda>timeText.
     io_bind (parseTimeAgo_call E timeText) (\<lambda>stamp.
     io_return \<lparr>title = title, timeText = timeText, timestamp = stamp\<rparr>)))"

function collect :: "env \<Rightarrow> nat \<Rightarrow> nat \<Rightarrow> article list \<Rightarrow> article list io" where
  "collect E rows i articles w =
     (if i < min articleLimit rows then
        (case read_row E i w of
           (Inl e, w') \<Rightarrow> (Inl e, w')
         | (Inr a, w') \<Rightarrow> collect E rows (i + 1) (articles @ [a]) w')
      else (Inr articles, w))"
  by pat_completeness auto
termination
  by (relation "measure (\<lambda>(E, rows, i, articles, w). min articleLimit rows - i)") auto

subsection \<open>validateHNSorting (index.js)\<close>

fun report_lines :: "sorting_error list \<Rightarrow> message list" where
  "report_lines [] = []"
| "report_lines (err # errs) =
     [PositionTimeDifference (position err) (timeDiff err),
      Earlier (title (article1 err)) (timeText (article1 err)),
      Later (title (article2 err)) (timeText (article2 err))] @ report_lines errs"

text \<open>The body of the \<^verbatim>\<open>try\<close> block.\<close>

definition run_body :: "env \<Rightarrow> int \<Rightarrow> unit io" where
  "run_body E startTime =
     io_bind (browser_newContext E) (\<lambda>_.
     io_bind (context_newPage E) (\<lambda>_.
     io_bind (logger_info E Navigating) (\<lambda>_.
     io_bind (retry E (page_goto E) maxRetries) (\<lambda>_.
     io_bind (logger_info E CollectingArticleData) (\<lambda>_.
     io_bind (retry E (locator_all E) maxRetries) (\<lambda>rows.
     case rows of
       None \<Rightarrow> io_throw (Exn ''TypeError'')
     | Some n \<Rightarrow>
     io_bind (collect E n 0 []) (\<lambda>articles.
     io_bind (logger_info E (Collected (length articles))) (\<lambda>_.
     io_bind (logger_info_all E (infos (verify_sorting articles))) (\<lambda>_.
     io_bind (date_now E) (\<lambda>t.
     if isSorted (verify_sorting articles) then
       logger_info E (ValidationPassed (t - startTime))
     else
       io_bind (logger_error E ValidationFailed) (\<lambda>_.
       io_bind (logger_error E SortingErrors) (\<lambda>_.
       io_bind (logger_error_all E (report_lines (sortingErrors (verify_sorting articles)))) (\<lambda>_.
       io_bind (captureScreenshot E ''sorting_failure'') (\<lambda>shot.
       logger_info E (ScreenshotSaved (fst shot) (snd shot))))))))))))))))"

text \<open>The \<^verbatim>\<open>catch\<close> block: the error is logged, a screenshot tried, the error thrown again.\<close>

definition run_catch :: "env \<Rightarrow> exn \<Rightarrow> unit io" where
  "run_catch E error =
     io_bind (logger_error E (ErrorOccurred (error_message error))) (\<lambda>_.
     io_bind (logger_error E (ErrorStack error)) (\<lambda>_.
     io_bind
       (\<lambda>w. if page w then
               try_catch
                 (io_bind (captureScreenshot E ''error'') (\<lambda>shot.
                  logger_info E (ErrorScreenshotSaved (fst shot) (snd shot))))
                 (\<lambda>screenshotError.
                    logger_error E (ScreenshotFailed (error_message screenshotError))) w
             else io_return () w) (\<lambda>_.
     io_throw error)))"

text \<open>The \<^verbatim>\<open>finally\<close> block.\<close>

definition run_finally :: "env \<Rightarrow> int \<Rightarrow> unit io" where
  "run_finally E startTime =
     io_bind (browser_close E) (\<lambda>_.
     io_bind (date_now E) (\<lambda>t.
     logger_info E (TotalExecutionTime (t - startTime))))"

definition validateHNSorting :: "env \<Rightarrow> unit io" where
  "validateHNSorting E =
     io_bind (date_now E) (\<lambda>startTime.
     io_bind (chromium_launch E) (\<lambda>_.
     try_finally (try_catch (run_body E startTime) (run_catch E)) (run_finally E startTime)))"

subsection \<open>validateHNSorting (plain script)\<close>

definition parseTimeAgo_plain_call :: "env \<Rightarrow> string option \<Rightarrow> date io" where
  "parseTimeAgo_plain_call E label =
     io_bind (date_now E) (\<lambda>now.
       case label of
         None \<Rightarrow> io_throw (Exn ''TypeError'')
       | Some text \<Rightarrow> io_return (parseTimeAgo_plain now text))"

definition read_row_plain :: "env \<Rightarrow> nat \<Rightarrow> article io" where
  "read_row_plain E i =
     io_bind (title_textContent E i) (\<lambda>title.
     io_bind (age_textContent E i) (\<lambda>timeText.
     io_bind (parseTimeAgo_plain_call E timeText) (\<lambda>stamp.
     io_return \<lparr>title = title, timeText = timeText, timestamp = stamp\<rparr>)))"

function collect_plain :: "env \<Rightarrow> nat \<Rightarrow> nat \<Rightarrow> article list \<Rightarrow> article list io" where
  "collect_plain E rows i articles w =
     (if i < min 100 rows then
        (case read_row_plain E i w of
           (Inl e, w') \<Rightarrow> (Inl e, w')
         | (Inr a, w') \<Rightarrow> collect_plain E rows (i + 1) (articles @ [a]) w')
      else (Inr articles, w))"
  by pat_completeness auto
termination
  by (relation "measure (\<lambda>(E, rows, i, articles, w). min 100 rows - i)") auto

definition run_body_plain :: "env \<Rightarrow> unit io" where
  "run_body_plain E =
     io_bind (browser_newContext E) (\<lambda>_.
     io_bind (context_newPage E) (\<lambda>_.
     io_bind (emit (ConsoleLog Navigating)) (\<lambda>_.
     io_bind (page_goto E) (\<lambda>_.
     io_bind (emit (ConsoleLog CollectingArticleData)) (\<lambda>_.
     io_bind (locator_all E) (\<lambda>n.
     io_bind (collect_plain E n 0 []) (\<lambda>articles.
     io_bind (emit (ConsoleLog (Collected (length articles)))) (\<lambda>_.
     io_bind (console_error_all (snd (sorting_loop_plain articles 1))) (\<lambda>_.
     if fst (sorting_loop_plain articles 1) then emit (ConsoleLog ValidationPassedPlain)
     else emit (ConsoleLog ValidationFailedPlain))))))))))"

definition validateHNSorting_plain :: "env \<Rightarrow> unit io" where
  "validateHNSorting_plain E =
     io_bind (chromium_launch E) (\<lambda>_.
     try_finally
       (try_catch (run_body_plain E)
          (\<lambda>error. emit (ConsoleError (ErrorOccurredPlain error))))
       (browser_close E))"

section \<open>The parser as the specification words it\<close>

text \<open>
  The table of multipliers, in milliseconds, as the specification lists it: a second
  definition, to compare the script's table with.
\<close>

definition spec_multiplier :: "string \<Rightarrow> int option" where
  "spec_multiplier u =
     (if u = ''minute'' then Some 60000
      else if u = ''hour'' then Some 3600000
      else if u = ''day'' then Some 86400000
      else if u = ''month'' then Some 2592000000
      else if u = ''year'' then Some 31536000000
      else None)"

definition unit_names :: "string list" where
  "unit_names = [''minute'', ''hour'', ''day'', ''month'', ''year'']"

text \<open>An environment for examples: every call succeeds, the clock is given.\<close>

definition quiet_env :: "(nat \<Rightarrow> int) \<Rightarrow> nat \<Rightarrow> (nat \<Rightarrow> string option) \<Rightarrow> env" where
  "quiet_env clk n labels =
     \<lparr>clock = clk, launch_result = None, newContext_result = None, newPage_result = None,
      goto_result = (\<lambda>_. None), all_result = (\<lambda>_. Inr n),
      title_result = (\<lambda>i. Inr (Some ''title'')), age_result = (\<lambda>i. Inr (labels i)),
      mkdir_result = (\<lambda>_. None), screenshot_result = (\<lambda>_. None), close_result = None\<rparr>"

text \<open>The spellings of the five units in lower case, singular and plural.\<close>

definition unit_words :: "string list" where
  "unit_words = [''minute'', ''minutes'', ''hour'', ''hours'', ''day'', ''days'',
                 ''month'', ''months'', ''year'', ''years'']"

text \<open>The events of an attempt under \<^verbatim>\<open>retry\<close>: the two calls it wraps, and the waits.\<close>

fun is_attempt :: "event \<Rightarrow> bool" where
  "is_attempt Goto = True"
| "is_attempt LocateAll = True"
| "is_attempt (Sleep d) = True"
| "is_attempt _ = False"

section \<open>Facts about the matcher and \<^verbatim>\<open>parseInt\<close>\<close>

declare sorting_loop.simps [simp del]
declare binade_up.simps [simp del]
declare binade_down.simps [simp del]
declare retry_loop.simps [simp del]
declare collect.simps [simp del]
declare collect_plain.simps [simp del]

lemma takeWhile_stop:
  "\<forall>x\<in>set xs. P x \<Longrightarrow> ys = [] \<or> \<not> P (hd ys) \<Longrightarrow> takeWhile P (xs @ ys) = xs"
  by (cases ys) (simp_all add: takeWhile_append2)

lemma dropWhile_stop:
  "\<forall>x\<in>set xs. P x \<Longrightarrow> ys = [] \<or> \<not> P (hd ys) \<Longrightarrow> dropWhile P (xs @ ys) = ys"
  by (cases ys) (simp_all add: dropWhile_append2)

lemma digit_not_space: "is_digit c \<Longrightarrow> \<not> is_space c"
  by (auto simp: is_digit_def is_space_def)

lemma digit_not_alpha: "is_digit c \<Longrightarrow> \<not> is_alpha c"
  by (auto simp: is_digit_def is_alpha_def)

lemma space_not_alpha: "is_space c \<Longrightarrow> \<not> is_alpha c"
  by (auto simp: is_space_def is_alpha_def)

lemma space_not_x: "is_space c \<Longrightarrow> c \<noteq> CHR ''x'' \<and> c \<noteq> CHR ''X''"
  by (auto simp: is_space_def)

text \<open>
  The matcher on a label of the evident shape: digits, white space, a word that ends where
  the letters end; before them, text without a digit.
\<close>

lemma match_here_split:
  assumes ds: "ds \<noteq> []" "\<forall>c\<in>set ds. is_digit c"
    and ws: "\<forall>c\<in>set ws. is_space c"
    and w: "w \<noteq> []" "\<forall>c\<in>set w. is_alpha c"
    and rest: "rest = [] \<or> \<not> is_alpha (hd rest)"
  shows "match_here (ds @ ws @ w @ rest) = Some (ds, w)"
proof -
  have hw: "is_alpha (hd w)" using w by (cases w) auto
  have h1: "ws @ w @ rest = [] \<or> \<not> is_digit (hd (ws @ w @ rest))"
    using ws w hw by (cases ws) (auto dest: digit_not_space digit_not_alpha)
  have h2: "w @ rest = [] \<or> \<not> is_space (hd (w @ rest))"
    using w hw by (auto dest: space_not_alpha)
  have t1: "takeWhile is_digit (ds @ ws @ w @ rest) = ds"
    using ds(2) h1 by (rule takeWhile_stop)
  have d1: "dropWhile is_digit (ds @ ws @ w @ rest) = ws @ w @ rest"
    using ds(2) h1 by (rule dropWhile_stop)
  have d2: "dropWhile is_space (ws @ w @ rest) = w @ rest"
    using ws h2 by (rule dropWhile_stop)
  have t2: "takeWhile is_alpha (w @ rest) = w"
    using w(2) rest by (rule takeWhile_stop)
  show ?thesis
    using ds(1) w(1) by (simp add: match_here_def t1 d1 d2 t2)
qed

lemma match_here_no_digit: "\<not> is_digit c \<Longrightarrow> match_here (c # cs) = None"
  by (simp add: match_here_def)

lemma str_match_skip: "\<forall>c\<in>set pre. \<not> is_digit c \<Longrightarrow> str_match (pre @ s) = str_match s"
  by (induction pre) (simp_all add: match_here_no_digit)

lemma str_match_here: "match_here s = Some m \<Longrightarrow> str_match s = Some m"
  by (cases s) (simp_all add: match_here_def)

lemma str_match_split:
  assumes "\<forall>c\<in>set pre. \<not> is_digit c"
    and "ds \<noteq> []" "\<forall>c\<in>set ds. is_digit c"
    and "\<forall>c\<in>set ws. is_space c"
    and "w \<noteq> []" "\<forall>c\<in>set w. is_alpha c"
    and "rest = [] \<or> \<not> is_alpha (hd rest)"
  shows "str_match (pre @ ds @ ws @ w @ rest) = Some (ds, w)"
  using assms by (simp add: str_match_skip str_match_here match_here_split)

lemma str_match_no_digit: "\<forall>c\<in>set s. \<not> is_digit c \<Longrightarrow> str_match s = None"
  by (induction s) (simp_all add: match_here_no_digit)

lemma match_here_shape:
  "match_here s = Some (n, u) \<Longrightarrow>
     n \<noteq> [] \<and> (\<forall>c\<in>set n. is_digit c) \<and> u \<noteq> [] \<and> (\<forall>c\<in>set u. is_alpha c)"
  by (auto simp: match_here_def Let_def split: if_splits dest: set_takeWhileD)

lemma str_match_shape:
  "str_match s = Some (n, u) \<Longrightarrow>
     n \<noteq> [] \<and> (\<forall>c\<in>set n. is_digit c) \<and> u \<noteq> [] \<and> (\<forall>c\<in>set u. is_alpha c)"
proof (induction s)
  case Nil
  then show ?case by simp
next
  case (Cons c cs)
  show ?case
  proof (cases "match_here (c # cs)")
    case None
    then show ?thesis using Cons by simp
  next
    case (Some m)
    then have "match_here (c # cs) = Some (n, u)" using Cons.prems by simp
    then show ?thesis by (rule match_here_shape)
  qed
qed

lemma digit_of_10: "(\<lambda>c. digit_of 10 c \<noteq> None) = is_digit"
  by (rule ext) (auto simp: digit_of_def is_digit_def Let_def split: if_splits option.splits)

lemma parseInt_digits:
  assumes ds: "ds \<noteq> []" "\<forall>c\<in>set ds. is_digit c"
    and tl: "tail = [] \<or> (\<not> is_digit (hd tail) \<and> hd tail \<noteq> CHR ''x'' \<and> hd tail \<noteq> CHR ''X'')"
  shows "parseInt (ds @ tail) = Some (radix_value 10 ds)"
proof -
  obtain d ds' where dd: "ds = d # ds'" using ds(1) by (cases ds) auto
  have dg: "is_digit d" using ds(2) dd by simp
  have ne: "ds @ tail \<noteq> []" and hd: "hd (ds @ tail) = d"
    using dd by simp_all
  have S: "dropWhile is_space (ds @ tail) = ds @ tail"
    using dg dd by (simp add: digit_not_space)
  have nsign: "d \<noteq> CHR ''-''" "d \<noteq> CHR ''+''"
    using dg by (auto simp: is_digit_def)
  have nhex: "\<not> (case ds @ tail of a # b # _ \<Rightarrow> a = CHR ''0'' \<and> (b = CHR ''x'' \<or> b = CHR ''X'') | _ \<Rightarrow> False)"
  proof (cases ds')
    case Nil
    then show ?thesis using tl dd by (cases tail) auto
  next
    case (Cons e es)
    then have "is_digit e" using ds(2) dd by simp
    then have "e \<noteq> CHR ''x''" "e \<noteq> CHR ''X''" by (auto simp: is_digit_def)
    then show ?thesis using dd Cons by simp
  qed
  have Z: "takeWhile (\<lambda>c. digit_of 10 c \<noteq> None) (ds @ tail) = ds"
    unfolding digit_of_10 using ds(2) tl by (intro takeWhile_stop) auto
  show ?thesis
    unfolding parseInt_def Let_def S
    using nsign nhex ne ds(1) by (simp add: hd Z del: not_None_eq)
qed

lemma parseInt_number:
  "n \<noteq> [] \<Longrightarrow> \<forall>c\<in>set n. is_digit c \<Longrightarrow> parseInt n = Some (radix_value 10 n)"
  using parseInt_digits [of n "[]"] by simp

lemma parseInt_no_digit:
  assumes "\<forall>c\<in>set s. \<not> is_digit c"
  shows "parseInt s = None"
proof -
  define S where "S = dropWhile is_space s"
  define S1 where "S1 = (if S \<noteq> [] \<and> (hd S = CHR ''+'' \<or> hd S = CHR ''-'') then tl S else S)"
  have sub: "set S \<subseteq> set s" unfolding S_def by (auto dest: set_dropWhileD)
  have sub1: "set S1 \<subseteq> set s"
    unfolding S1_def using sub by (auto dest: list.set_sel(2))
  have nd: "\<forall>c\<in>set S1. \<not> is_digit c" using sub1 assms by auto
  have z: "is_digit (CHR ''0'')" by (simp add: is_digit_def)
  have nhex: "\<not> (case S1 of a # b # _ \<Rightarrow> a = CHR ''0'' \<and> (b = CHR ''x'' \<or> b = CHR ''X'') | _ \<Rightarrow> False)"
    using nd z by (auto split: list.splits)
  have Z: "takeWhile (\<lambda>c. digit_of 10 c \<noteq> None) S1 = []"
    unfolding digit_of_10 using nd by (cases S1) auto
  show ?thesis
    unfolding parseInt_def Let_def S_def[symmetric] S1_def[symmetric]
    using nhex Z by (simp del: not_None_eq)
qed

section \<open>The parser of index.js\<close>

text \<open>
  What the matcher captures stands in the label: the digits, then white space, then the
  word, which ends where the letters end.
\<close>

lemma match_here_occurs:
  assumes "match_here s = Some (n, u)"
  shows "\<exists>ws rest. s = n @ ws @ u @ rest \<and> (\<forall>c\<in>set ws. is_space c) \<and>
           (rest = [] \<or> \<not> is_alpha (hd rest))"
proof -
  define r1 where "r1 = dropWhile is_digit s"
  define r2 where "r2 = dropWhile is_space r1"
  have n: "n = takeWhile is_digit s" and u: "u = takeWhile is_alpha r2"
    using assms by (auto simp: match_here_def Let_def r1_def r2_def split: if_splits)
  have "s = n @ r1" by (simp add: n r1_def)
  moreover have "r1 = takeWhile is_space r1 @ r2" by (simp add: r2_def)
  moreover have "r2 = u @ dropWhile is_alpha r2" by (simp add: u)
  moreover have "\<forall>c\<in>set (takeWhile is_space r1). is_space c"
    by (auto dest: set_takeWhileD)
  moreover have "dropWhile is_alpha r2 = [] \<or> \<not> is_alpha (hd (dropWhile is_alpha r2))"
    by (metis hd_dropWhile)
  ultimately show ?thesis by metis
qed

lemma str_match_occurs:
  "str_match s = Some (n, u) \<Longrightarrow>
     \<exists>pre ws rest. s = pre @ n @ ws @ u @ rest \<and> (\<forall>c\<in>set ws. is_space c) \<and>
       (rest = [] \<or> \<not> is_alpha (hd rest))"
proof (induction s)
  case Nil
  then show ?case by simp
next
  case (Cons c cs)
  show ?case
  proof (cases "match_here (c # cs)")
    case None
    then have "str_match cs = Some (n, u)" using Cons.prems by simp
    then obtain pre ws rest where "cs = pre @ n @ ws @ u @ rest"
      "\<forall>c\<in>set ws. is_space c" "rest = [] \<or> \<not> is_alpha (hd rest)"
      using Cons.IH by blast
    then have "c # cs = (c # pre) @ n @ ws @ u @ rest \<and> (\<forall>c\<in>set ws. is_space c) \<and>
        (rest = [] \<or> \<not> is_alpha (hd rest))"
      by simp
    then show ?thesis by blast
  next
    case (Some m)
    then have "match_here (c # cs) = Some (n, u)" using Cons.prems by simp
    then obtain ws rest where "c # cs = [] @ n @ ws @ u @ rest"
      "\<forall>c\<in>set ws. is_space c" "rest = [] \<or> \<not> is_alpha (hd rest)"
      using match_here_occurs by fastforce
    then show ?thesis by blast
  qed
qed

lemma multipliers_spec: "spec_multiplier k = Some m \<Longrightarrow> multipliers k = Number m \<and> m \<noteq> 0"
  by (auto simp: spec_multiplier_def multipliers_def split: if_splits)

lemma multipliers_unknown:
  "spec_multiplier k = None \<Longrightarrow> k \<noteq> ''constructor'' \<Longrightarrow> multipliers k = Undefined"
  by (auto simp: spec_multiplier_def multipliers_def split: if_splits)

lemma parseTimeAgo_clip:
  assumes "str_match label = Some (number, unit)"
    and "spec_multiplier (replace_trailing_s (toLowerCase unit)) = Some m"
  shows "parseTimeAgo now label = (TimeClip (now - radix_value 10 number * m), [])"
proof -
  have "parseInt number = Some (radix_value 10 number)"
    using str_match_shape [OF assms(1)] by (simp add: parseInt_number)
  moreover have "multipliers (replace_trailing_s (toLowerCase unit)) = Number m" "m \<noteq> 0"
    using multipliers_spec [OF assms(2)] by simp_all
  ultimately show ?thesis
    using assms(1) by (simp add: parseTimeAgo_def js_mul_def js_sub_def new_Date_def)
qed

text \<open>
  C1, as amended. For every label on which the pattern captures \<open>number\<close> and \<open>unit\<close>, the
  unit, lower-cased and with one trailing s removed, being one of minute, hour, day, month,
  year with the multiplier \<open>m\<close> of the specification's table, and for every reference
  instant \<open>now\<close>: when \<open>now - magnitude * m\<close> is within the range of a date (at most
  \<open>8.64 * 10^15\<close> ms from the epoch), \<^verbatim>\<open>parseTimeAgo\<close> returns exactly that instant and
  logs nothing. The magnitude is the decimal value of the digits.
\<close>

theorem parseTimeAgo_recognized:
  assumes "str_match label = Some (number, unit)"
    and "spec_multiplier (replace_trailing_s (toLowerCase unit)) = Some m"
    and "\<bar>now - radix_value 10 number * m\<bar> \<le> 8640000000000000"
  shows "parseTimeAgo now label = (Some (now - radix_value 10 number * m), [])"
  using parseTimeAgo_clip [OF assms(1,2)] assms(3) by (simp add: TimeClip_def)

text \<open>The instance "5 minutes ago".\<close>

theorem parseTimeAgo_recognized_witness:
  "str_match ''5 minutes ago'' = Some (''5'', ''minutes'') \<and>
   spec_multiplier (replace_trailing_s (toLowerCase ''minutes'')) = Some 60000 \<and>
   radix_value 10 ''5'' = 5 \<and>
   parseTimeAgo 1700000000000 ''5 minutes ago'' = (Some (1700000000000 - 5 * 60000), [])"
proof -
  have m: "str_match ''5 minutes ago'' = Some (''5'', ''minutes'')" by code_simp
  have u: "spec_multiplier (replace_trailing_s (toLowerCase ''minutes'')) = Some 60000" by code_simp
  have v: "radix_value 10 ''5'' = 5" by code_simp
  have r: "\<bar>1700000000000 - radix_value 10 ''5'' * 60000\<bar> \<le> (8640000000000000 :: int)"
    unfolding v by simp
  show ?thesis
    using parseTimeAgo_recognized [OF m u r] m u v by simp
qed

text \<open>
  C1 as stated fails beyond the range of a date: "300000 years ago" matches the pattern with
  the unit year, and the result is the invalid date, not \<open>now - 300000 * 31536000000\<close>.
\<close>

theorem parseTimeAgo_out_of_range:
  "str_match ''300000 years ago'' = Some (''300000'', ''years'') \<and>
   spec_multiplier (replace_trailing_s (toLowerCase ''years'')) = Some 31536000000 \<and>
   radix_value 10 ''300000'' = 300000 \<and>
   fst (parseTimeAgo 1700000000000 ''300000 years ago'') = None \<and>
   fst (parseTimeAgo 1700000000000 ''300000 years ago'')
     \<noteq> Some (1700000000000 - 300000 * 31536000000)"
  by code_simp

text \<open>
  A unit outside the table, other than \<^verbatim>\<open>constructor\<close>: the function returns \<open>now\<close> and
  logs the unknown unit.
\<close>

lemma parseTimeAgo_unknown:
  assumes "str_match label = Some (number, unit)"
    and "spec_multiplier (replace_trailing_s (toLowerCase unit)) = None"
    and "replace_trailing_s (toLowerCase unit) \<noteq> ''constructor''"
  shows "parseTimeAgo now label = (Some now, [UnknownTimeUnit unit label])"
  using assms by (simp add: parseTimeAgo_def multipliers_unknown)

text \<open>
  C4. The unit of "3 constructors ago" normalizes to \<^verbatim>\<open>constructor\<close>, which is not one of
  the five units; the property read finds the inherited function, the guard \<^verbatim>\<open>!multiplier\<close>
  lets it pass, and the function returns the invalid date and logs nothing, where the
  specification has \<open>now\<close> returned and the anomaly reported.
\<close>

theorem parseTimeAgo_constructor:
  "str_match ''3 constructors ago'' = Some (''3'', ''constructors'') \<and>
   spec_multiplier (replace_trailing_s (toLowerCase ''constructors'')) = None \<and>
   parseTimeAgo now ''3 constructors ago'' = (None, [])"
proof -
  have m: "str_match ''3 constructors ago'' = Some (''3'', ''constructors'')" by code_simp
  have u: "replace_trailing_s (toLowerCase ''constructors'') = ''constructor''" by code_simp
  have s: "spec_multiplier ''constructor'' = None" by code_simp
  have k: "multipliers ''constructor'' = ObjectFunction" by code_simp
  have p: "parseTimeAgo now ''3 constructors ago'' = (None, [])"
    unfolding parseTimeAgo_def m by (simp add: u k js_mul_def js_sub_def new_Date_def split: option.splits)
  have s': "spec_multiplier (replace_trailing_s (toLowerCase ''constructors'')) = None"
    unfolding u by (rule s)
  show ?thesis
    using m s' p by (intro conjI)
qed

section \<open>Labels without a digit\<close>

lemma parseTimeAgo_plain_no_digit:
  assumes "\<forall>c\<in>set label. \<not> is_digit c"
  shows "parseTimeAgo_plain now label =
           (if \<exists>u\<in>set unit_names. js_includes label u then None else Some now)"
  using parseInt_no_digit [OF assms]
  by (simp add: parseTimeAgo_plain_def unit_names_def js_mul_def js_sub_def new_Date_def)

text \<open>
  C5, as amended. For every label that contains no digit at all (as "just now", "a day ago",
  "a minute ago"), \<^verbatim>\<open>parseTimeAgo\<close> of index.js returns \<open>now\<close>, logs nothing and does not
  raise.
\<close>

theorem parseTimeAgo_no_digit:
  assumes "\<forall>c\<in>set label. \<not> is_digit c"
  shows "parseTimeAgo now label = (Some now, [])"
  using str_match_no_digit [OF assms] by (simp add: parseTimeAgo_def)

text \<open>The instances "just now", "a day ago" and "a minute ago".\<close>

theorem parseTimeAgo_no_digit_witness:
  "list_all (\<lambda>c. \<not> is_digit c) ''just now'' \<and>
   parseTimeAgo 1700000000000 ''just now'' = (Some 1700000000000, []) \<and>
   list_all (\<lambda>c. \<not> is_digit c) ''a day ago'' \<and>
   parseTimeAgo 1700000000000 ''a day ago'' = (Some 1700000000000, []) \<and>
   list_all (\<lambda>c. \<not> is_digit c) ''a minute ago'' \<and>
   parseTimeAgo 1700000000000 ''a minute ago'' = (Some 1700000000000, [])"
proof -
  have a: "\<forall>c\<in>set ''just now''. \<not> is_digit c" by (simp add: is_digit_def)
  have b: "\<forall>c\<in>set ''a day ago''. \<not> is_digit c" by (simp add: is_digit_def)
  have c: "\<forall>c\<in>set ''a minute ago''. \<not> is_digit c" by (simp add: is_digit_def)
  have la: "list_all (\<lambda>c. \<not> is_digit c) ''just now''" using a by (simp only: list_all_iff)
  have lb: "list_all (\<lambda>c. \<not> is_digit c) ''a day ago''" using b by (simp only: list_all_iff)
  have lc: "list_all (\<lambda>c. \<not> is_digit c) ''a minute ago''" using c by (simp only: list_all_iff)
  show ?thesis
    using la parseTimeAgo_no_digit [OF a, of 1700000000000]
      lb parseTimeAgo_no_digit [OF b, of 1700000000000]
      lc parseTimeAgo_no_digit [OF c, of 1700000000000]
    by (intro conjI)
qed

text \<open>
  C5 as stated fails: "about 5 minutes ago" has no leading digit, and index.js finds the
  digit inside and returns five minutes before \<open>now\<close>.
\<close>

theorem parseTimeAgo_digit_inside:
  "\<not> is_digit (hd ''about 5 minutes ago'') \<and>
   fst (parseTimeAgo 1700000000000 ''about 5 minutes ago'') = Some 1699999700000 \<and>
   fst (parseTimeAgo 1700000000000 ''about 5 minutes ago'') \<noteq> Some 1700000000000"
  by code_simp

text \<open>
  The plain script does not reach its fallback on every label without a digit: when one of
  the unit names occurs in the label, \<^verbatim>\<open>parseInt\<close> has given \<^verbatim>\<open>NaN\<close> and the date is
  invalid, as on "a minute ago", where index.js returns \<open>now\<close>.
\<close>

lemma parseTimeAgo_plain_a_minute_ago:
  "parseTimeAgo_plain 1700000000000 ''a minute ago'' = None \<and>
   parseTimeAgo 1700000000000 ''a minute ago'' = (Some 1700000000000, [])"
  by code_simp

section \<open>The two parsers compared\<close>

lemma prefix_alpha_head:
  "p \<noteq> [] \<Longrightarrow> \<forall>c\<in>set p. is_alpha c \<Longrightarrow> \<not> is_alpha x \<Longrightarrow> \<not> prefix p (x # xs)"
  by (cases p) auto

lemma sublist_skip_non_alpha:
  assumes "p \<noteq> []" "\<forall>c\<in>set p. is_alpha c" "\<forall>c\<in>set xs. \<not> is_alpha c"
  shows "sublist p (xs @ ys) = sublist p ys"
  using assms(3)
  by (induction xs) (simp_all add: sublist_Cons_right prefix_alpha_head [OF assms(1,2)])

lemma sublist_word_rest:
  assumes p: "p \<noteq> []" "\<forall>c\<in>set p. is_alpha c"
    and rest: "rest = [] \<or> \<not> is_alpha (hd rest)"
  shows "sublist p (w @ rest) = (sublist p w \<or> sublist p rest)"
proof -
  have "\<not> (\<exists>p1 p2. p = p1 @ p2 \<and> p1 \<noteq> [] \<and> p2 \<noteq> [] \<and> suffix p1 w \<and> prefix p2 rest)"
  proof
    assume "\<exists>p1 p2. p = p1 @ p2 \<and> p1 \<noteq> [] \<and> p2 \<noteq> [] \<and> suffix p1 w \<and> prefix p2 rest"
    then obtain p1 p2 where h: "p = p1 @ p2" "p2 \<noteq> []" "prefix p2 rest" by blast
    then obtain c cs where c: "p2 = c # cs" by (cases p2) auto
    then have "rest \<noteq> []" "hd rest = c" using h(3) by (auto simp: prefix_def)
    moreover have "is_alpha c" using p(2) h(1) c by simp
    ultimately show False using rest by simp
  qed
  moreover have "sublist p (w @ rest) \<longleftrightarrow>
      sublist p w \<or> sublist p rest \<or>
      (\<exists>p1 p2. p = p1 @ p2 \<and> p1 \<noteq> [] \<and> p2 \<noteq> [] \<and> suffix p1 w \<and> prefix p2 rest)"
  proof -
    have "(\<exists>p1 p2. p = p1 @ p2 \<and> suffix p1 w \<and> prefix p2 rest) \<longrightarrow>
          sublist p w \<or> sublist p rest \<or>
          (\<exists>p1 p2. p = p1 @ p2 \<and> p1 \<noteq> [] \<and> p2 \<noteq> [] \<and> suffix p1 w \<and> prefix p2 rest)"
    proof
      assume "\<exists>p1 p2. p = p1 @ p2 \<and> suffix p1 w \<and> prefix p2 rest"
      then obtain p1 p2 where h: "p = p1 @ p2" "suffix p1 w" "prefix p2 rest" by blast
      show "sublist p w \<or> sublist p rest \<or>
          (\<exists>p1 p2. p = p1 @ p2 \<and> p1 \<noteq> [] \<and> p2 \<noteq> [] \<and> suffix p1 w \<and> prefix p2 rest)"
      proof (cases "p1 = [] \<or> p2 = []")
        case True
        then show ?thesis using h by auto
      next
        case False
        then show ?thesis using h by blast
      qed
    qed
    then show ?thesis unfolding sublist_append [of p w rest] by blast
  qed
  ultimately show ?thesis by blast
qed

lemma includes_label:
  assumes p: "p \<noteq> []" "\<forall>c\<in>set p. is_alpha c"
    and ds: "\<forall>c\<in>set ds. is_digit c" and ws: "\<forall>c\<in>set ws. is_space c"
    and rest: "rest = [] \<or> \<not> is_alpha (hd rest)" "\<not> js_includes rest p"
  shows "js_includes (ds @ ws @ w @ rest) p = sublist p w"
proof -
  have "\<forall>c\<in>set (ds @ ws). \<not> is_alpha c"
    using ds ws by (auto dest: digit_not_alpha space_not_alpha)
  then have "sublist p ((ds @ ws) @ w @ rest) = sublist p (w @ rest)"
    by (rule sublist_skip_non_alpha [OF p])
  then show ?thesis
    using sublist_word_rest [OF p rest(1), of w] rest(2) by (simp add: js_includes_def)
qed

lemma unit_names_alpha: "u \<in> set unit_names \<Longrightarrow> u \<noteq> [] \<and> (\<forall>c\<in>set u. is_alpha c)"
  by (auto simp: unit_names_def is_alpha_def)

lemma unit_words_shape:
  "w \<in> set unit_words \<Longrightarrow>
     w \<noteq> [] \<and> (\<forall>c\<in>set w. is_alpha c) \<and> \<not> is_digit (hd w) \<and> hd w \<noteq> CHR ''x'' \<and> hd w \<noteq> CHR ''X''"
  by (auto simp: unit_words_def is_alpha_def is_digit_def)

lemma unit_words_lower: "w \<in> set unit_words \<Longrightarrow> toLowerCase w = w"
  by (auto simp: unit_words_def toLowerCase_def toLowerCase_char_def)

lemma plain_chain_words:
  "\<forall>w\<in>set unit_words. \<exists>m. spec_multiplier (replace_trailing_s w) = Some m \<and>
     (if sublist ''minute'' w then TimeClip (now - n * 60 * 1000)
      else if sublist ''hour'' w then TimeClip (now - n * 60 * 60 * 1000)
      else if sublist ''day'' w then TimeClip (now - n * 24 * 60 * 60 * 1000)
      else if sublist ''month'' w then TimeClip (now - n * 30 * 24 * 60 * 60 * 1000)
      else if sublist ''year'' w then TimeClip (now - n * 365 * 24 * 60 * 60 * 1000)
      else Some now) = TimeClip (now - n * m)"
  by (simp add: unit_words_def spec_multiplier_def replace_trailing_s_def sublist_code mult.commute)

lemma parseTimeAgo_plain_value:
  assumes n: "parseInt label = Some n"
    and inc: "\<And>p. p \<in> set unit_names \<Longrightarrow> js_includes label p = sublist p w"
    and w: "w \<in> set unit_words"
  shows "\<exists>m. spec_multiplier (replace_trailing_s w) = Some m \<and>
             parseTimeAgo_plain now label = TimeClip (now - n * m)"
proof -
  have i: "js_includes label ''minute'' = sublist ''minute'' w"
      "js_includes label ''hour'' = sublist ''hour'' w"
      "js_includes label ''day'' = sublist ''day'' w"
      "js_includes label ''month'' = sublist ''month'' w"
      "js_includes label ''year'' = sublist ''year'' w"
    by (simp_all add: inc unit_names_def)
  have v: "parseTimeAgo_plain now label =
     (if sublist ''minute'' w then TimeClip (now - n * 60 * 1000)
      else if sublist ''hour'' w then TimeClip (now - n * 60 * 60 * 1000)
      else if sublist ''day'' w then TimeClip (now - n * 24 * 60 * 60 * 1000)
      else if sublist ''month'' w then TimeClip (now - n * 30 * 24 * 60 * 60 * 1000)
      else if sublist ''year'' w then TimeClip (now - n * 365 * 24 * 60 * 60 * 1000)
      else Some now)"
    unfolding parseTimeAgo_plain_def Let_def n i
    by (simp add: js_mul_def js_sub_def new_Date_def)
  show ?thesis
    unfolding v using plain_chain_words [of now n] w by blast
qed

text \<open>
  C10, as amended. For every label made of digits, optional white space, a unit written in
  lower case (one of the five names, singular or plural) and a rest that does not begin with
  a letter and contains none of the five names, and for a common reference instant, the two
  parsers return the same date: \<open>now - n * multiplier\<close> when that is within the range of
  a date, the invalid date otherwise.
\<close>

theorem parsers_agree:
  assumes ds: "ds \<noteq> []" "\<forall>c\<in>set ds. is_digit c"
    and ws: "\<forall>c\<in>set ws. is_space c"
    and w: "w \<in> set unit_words"
    and rest: "rest = [] \<or> \<not> is_alpha (hd rest)" "\<forall>u\<in>set unit_names. \<not> js_includes rest u"
  shows "\<exists>m. spec_multiplier (replace_trailing_s (toLowerCase w)) = Some m \<and>
             fst (parseTimeAgo now (ds @ ws @ w @ rest)) = parseTimeAgo_plain now (ds @ ws @ w @ rest) \<and>
             parseTimeAgo_plain now (ds @ ws @ w @ rest) =
               (if \<bar>now - radix_value 10 ds * m\<bar> \<le> 8640000000000000
                then Some (now - radix_value 10 ds * m) else None)"
proof -
  note sh = unit_words_shape [OF w]
  have tail: "ws @ w @ rest = [] \<or>
      (\<not> is_digit (hd (ws @ w @ rest)) \<and> hd (ws @ w @ rest) \<noteq> CHR ''x'' \<and>
       hd (ws @ w @ rest) \<noteq> CHR ''X'')"
    using ws sh by (cases ws) (auto dest: digit_not_space space_not_x)
  have n: "parseInt (ds @ ws @ w @ rest) = Some (radix_value 10 ds)"
    using ds tail by (rule parseInt_digits)
  have inc: "\<And>p. p \<in> set unit_names \<Longrightarrow> js_includes (ds @ ws @ w @ rest) p = sublist p w"
    using unit_names_alpha ds(2) ws rest by (intro includes_label) auto
  obtain m where m: "spec_multiplier (replace_trailing_s w) = Some m"
    and v1: "parseTimeAgo_plain now (ds @ ws @ w @ rest) = TimeClip (now - radix_value 10 ds * m)"
    using parseTimeAgo_plain_value [OF n inc w] by blast
  have sm: "str_match (ds @ ws @ w @ rest) = Some (ds, w)"
    using str_match_split [of "[]" ds ws w rest] ds ws sh rest(1) by simp
  have m': "spec_multiplier (replace_trailing_s (toLowerCase w)) = Some m"
    using m by (simp add: unit_words_lower [OF w])
  have v2: "parseTimeAgo now (ds @ ws @ w @ rest) = (TimeClip (now - radix_value 10 ds * m), [])"
    using sm m' by (rule parseTimeAgo_clip)
  show ?thesis
    using m' v1 v2 by (auto simp: TimeClip_def)
qed

text \<open>The instance "3 hours ago".\<close>

theorem parsers_agree_witness:
  "(\<exists>m. spec_multiplier (replace_trailing_s (toLowerCase ''hours'')) = Some m \<and>
      fst (parseTimeAgo 1700000000000 ''3 hours ago'') = parseTimeAgo_plain 1700000000000 ''3 hours ago'' \<and>
      parseTimeAgo_plain 1700000000000 ''3 hours ago'' =
        (if \<bar>1700000000000 - radix_value 10 ''3'' * m\<bar> \<le> 8640000000000000
         then Some (1700000000000 - radix_value 10 ''3'' * m) else None)) \<and>
   parseTimeAgo_plain 1700000000000 ''3 hours ago'' = Some (1700000000000 - 3 * 3600000)"
proof -
  have 1: "''3'' \<noteq> []" "\<forall>c\<in>set ''3''. is_digit c" by (simp_all add: is_digit_def)
  have 2: "\<forall>c\<in>set '' ''. is_space c" by (simp add: is_space_def)
  have 3: "''hours'' \<in> set unit_words" by (simp add: unit_words_def)
  have 4: "'' ago'' = [] \<or> \<not> is_alpha (hd '' ago'')" by (simp add: is_alpha_def)
  have 5: "\<forall>u\<in>set unit_names. \<not> js_includes '' ago'' u" by code_simp
  have 6: "parseTimeAgo_plain 1700000000000 ''3 hours ago'' = Some (1700000000000 - 3 * 3600000)"
    by code_simp
  show ?thesis
    using parsers_agree [OF 1 2 3 4 5, of 1700000000000] 6 by simp
qed

text \<open>
  C10 as stated fails on a capital letter: the unit of "5 Minutes ago" lower-cases to
  minutes, index.js subtracts five minutes, and the plain script, whose \<^verbatim>\<open>includes\<close> is
  case-sensitive, returns \<open>now\<close>.
\<close>

theorem parsers_differ_on_capitals:
  "str_match ''5 Minutes ago'' = Some (''5'', ''Minutes'') \<and>
   replace_trailing_s (toLowerCase ''Minutes'') = ''minute'' \<and>
   fst (parseTimeAgo 1700000000000 ''5 Minutes ago'') = Some (1700000000000 - 5 * 60000) \<and>
   parseTimeAgo_plain 1700000000000 ''5 Minutes ago'' = Some 1700000000000 \<and>
   fst (parseTimeAgo 1700000000000 ''5 Minutes ago'') \<noteq> parseTimeAgo_plain 1700000000000 ''5 Minutes ago''"
  by code_simp

section \<open>Rounding to a double\<close>

lemma floor_rat_numeral [simp]:
  "\<lfloor>numeral a / numeral b :: rat\<rfloor> = numeral a div numeral b"
  by (metis floor_divide_of_int_eq of_int_numeral)

lemma binade_up_le: "1 \<le> q \<Longrightarrow> 2 powi binade_up q \<le> q"
proof (induction q rule: binade_up.induct)
  case (1 q)
  show ?case
  proof (cases "2 \<le> q")
    case True
    then have "2 powi binade_up (q / 2) \<le> q / 2" using 1 by simp
    moreover have "binade_up q = binade_up (q / 2) + 1"
      using True by (subst binade_up.simps) simp
    ultimately show ?thesis by (simp add: power_int_add)
  next
    case False
    then have "binade_up q = 0" by (subst binade_up.simps) simp
    then show ?thesis using 1(2) by simp
  qed
qed

lemma binade_down_le: "0 < q \<Longrightarrow> q < 1 \<Longrightarrow> 2 powi binade_down q \<le> q"
proof (induction q rule: binade_down.induct)
  case (1 q)
  have s: "binade_down q = binade_down (2 * q) - 1"
    using 1(2,3) by (subst binade_down.simps) simp
  show ?case
  proof (cases "2 * q < 1")
    case True
    then have "2 powi binade_down (2 * q) \<le> 2 * q" using 1 by simp
    then show ?thesis unfolding s by (simp add: power_int_diff)
  next
    case False
    then have "binade_down (2 * q) = 0" by (subst binade_down.simps) simp
    then show ?thesis unfolding s using False by (simp add: power_int_minus)
  qed
qed

lemma binade_le: "0 < q \<Longrightarrow> 2 powi binade q \<le> q"
  by (simp add: binade_def binade_up_le binade_down_le)

lemma rne_err: "\<bar>of_int (rne t) - t\<bar> \<le> 1 / 2"
proof -
  have "of_int \<lfloor>t\<rfloor> \<le> t" "t < of_int \<lfloor>t\<rfloor> + 1" by linarith+
  then show ?thesis by (auto simp: rne_def Let_def)
qed

lemma rne_of_int: "rne (of_int n) = n"
  by (simp add: rne_def)

lemma to_double_err:
  assumes "0 < q"
  shows "\<bar>to_double q - q\<bar> \<le> q / 2 ^ 53"
proof -
  define e where "e = binade q"
  define ulp :: rat where "ulp = 2 powi (e - 52)"
  have up: "0 < ulp" by (simp add: ulp_def)
  have le: "2 powi e \<le> q" unfolding e_def using assms by (rule binade_le)
  have td: "to_double q = of_int (rne (q / ulp)) * ulp"
    using assms by (simp add: to_double_def e_def ulp_def)
  have "to_double q - q = (of_int (rne (q / ulp)) - q / ulp) * ulp"
    unfolding td using up by (simp add: left_diff_distrib)
  then have "\<bar>to_double q - q\<bar> = \<bar>of_int (rne (q / ulp)) - q / ulp\<bar> * ulp"
    using up by (simp add: abs_mult)
  also have "\<dots> \<le> 1 / 2 * ulp"
    using rne_err [of "q / ulp"] up by (intro mult_right_mono) simp_all
  also have "\<dots> = 2 powi e / 2 ^ 53"
    by (simp add: ulp_def power_int_diff)
  also have "\<dots> \<le> q / 2 ^ 53" using le by (simp add: divide_right_mono)
  finally show ?thesis .
qed

text \<open>A number of at most 53 significant bits is a double: rounding leaves it as it is.\<close>

lemma to_double_exact:
  fixes n :: int and j :: nat
  assumes "0 < n" "n < 2 ^ 53"
  shows "to_double (of_int n / 2 ^ j) = of_int n / 2 ^ j"
proof -
  define q :: rat where "q = of_int n / 2 ^ j"
  define e where "e = binade q"
  have q: "0 < q" using assms(1) by (simp add: q_def)
  have le: "2 powi e \<le> q" unfolding e_def using q by (rule binade_le)
  have "of_int n < (2 :: rat) ^ 53" using assms(2) by (metis of_int_less_numeral_power_cancel_iff)
  then have "q < 2 ^ 53 / 2 ^ j" by (simp add: q_def divide_strict_right_mono)
  also have "\<dots> = 2 powi (53 - int j)" by (simp add: power_int_diff)
  finally have lt: "2 powi e < (2 :: rat) powi (53 - int j)" using le by simp
  have k: "0 \<le> 52 - e - int j"
  proof (rule ccontr)
    assume "\<not> 0 \<le> 52 - e - int j"
    then have "53 - int j \<le> e" by simp
    then have "(2 :: rat) powi (53 - int j) \<le> 2 powi e" by (intro power_int_increasing) simp_all
    then show False using lt by simp
  qed
  define k where "k = nat (52 - e - int j)"
  have ke: "int k = 52 - e - int j" using k by (simp add: k_def)
  have a: "(2 :: rat) powi (52 - e) = 1 / 2 powi (e - 52)"
    by (metis minus_diff_eq power_int_minus inverse_eq_divide)
  have b: "(2 :: rat) powi (52 - e - int j) = 2 powi (52 - e) / 2 ^ j"
    by (simp add: power_int_diff)
  have "q / 2 powi (e - 52) = of_int n * 2 powi (52 - e - int j)"
    unfolding b a by (simp add: q_def)
  also have "\<dots> = of_int n * 2 ^ k" unfolding ke [symmetric] by simp
  also have "\<dots> = of_int (n * 2 ^ k)" by simp
  finally have m: "q / 2 powi (e - 52) = of_int (n * 2 ^ k)" .
  have r: "rne (q / 2 powi (e - 52)) = n * 2 ^ k"
    unfolding m by (rule rne_of_int)
  have "to_double q = of_int (rne (q / 2 powi (e - 52))) * 2 powi (e - 52)"
    using q by (simp add: to_double_def e_def)
  also have "\<dots> = (q / 2 powi (e - 52)) * 2 powi (e - 52)"
    unfolding m rne_of_int ..
  also have "\<dots> = q" by simp
  finally show ?thesis by (simp add: q_def)
qed

lemma to_double_of_int: "0 < n \<Longrightarrow> n < 2 ^ 53 \<Longrightarrow> to_double (of_int n) = of_int n"
  using to_double_exact [of n 0] by simp

text \<open>
  Below \<open>2^52\<close> ms the doubles of the time difference give the exact rounding: a difference
  that is an odd multiple of half a minute is computed without error, and any other one is
  at least one millisecond away from such a tie, more than the two roundings can move it.
\<close>

lemma minutes_tie:
  assumes "0 < d" "d < 2 ^ 52" "(d + 30000) mod 60000 = 0"
  shows "Math_round (to_double (to_double (to_double (of_int d) / 1000) / 60)) =
         (d + 30000) div 60000"
proof -
  define F where "F = (d + 30000) div 60000"
  have "d + 30000 = 60000 * F" using assms(3) unfolding F_def by auto
  then have d: "d = 60000 * F - 30000" by simp
  have F: "0 < F" using assms(1) d by simp
  have x0: "to_double (of_int d) = of_int d"
    using assms by (intro to_double_of_int) simp_all
  have e1: "(of_int d :: rat) / 1000 = of_int (60 * F - 30)" unfolding d by simp
  have t1: "to_double (of_int (60 * F - 30)) = of_int (60 * F - 30)"
    using F assms(2) d by (intro to_double_of_int) simp_all
  have e2: "(of_int (60 * F - 30) :: rat) / 60 = of_int (2 * F - 1) / 2 ^ 1" by simp
  have t2: "to_double (of_int (2 * F - 1) / 2 ^ 1) = of_int (2 * F - 1) / 2 ^ 1"
    using F assms(2) d by (intro to_double_exact) simp_all
  have e3: "(of_int (2 * F - 1) :: rat) / 2 ^ 1 + 1 / 2 = of_int F" by (simp add: field_simps)
  have "Math_round (to_double (to_double (to_double (of_int d) / 1000) / 60)) =
      \<lfloor>(of_int (2 * F - 1) :: rat) / 2 ^ 1 + 1 / 2\<rfloor>"
    unfolding Math_round_def x0 e1 t1 e2 t2 ..
  also have "\<dots> = F" unfolding e3 by simp
  finally show ?thesis unfolding F_def .
qed

lemma minutes_no_tie:
  assumes "0 < d" "d < 2 ^ 52" "(d + 30000) mod 60000 \<noteq> 0"
  shows "Math_round (to_double (to_double (to_double (of_int d) / 1000) / 60)) =
         (d + 30000) div 60000"
proof -
  define F where "F = (d + 30000) div 60000"
  define r where "r = (d + 30000) mod 60000"
  define D :: rat where "D = of_int d"
  define u :: rat where "u = 1 / 2 ^ 53"
  have dr: "d + 30000 = 60000 * F + r" unfolding F_def r_def by simp
  have "0 \<le> r" "r < 60000" unfolding r_def by simp_all
  then have r: "1 \<le> r" "r \<le> 59999" using assms(3) unfolding r_def by linarith+
  have D0: "0 < D" using assms(1) unfolding D_def by simp
  have "d \<le> 2 ^ 52 - 1" using assms(2) by simp
  then have "(of_int d :: rat) \<le> of_int (2 ^ 52 - 1)" by (simp only: of_int_le_iff)
  then have D1: "D \<le> 2 ^ 52 - 1" unfolding D_def by simp
  have u: "0 < u" "u < 1" by (simp_all add: u_def)
  have x0: "to_double (of_int d) = D"
    unfolding D_def using assms by (intro to_double_of_int) simp_all
  define a where "a = to_double (D / 1000)"
  define b where "b = to_double (a / 60)"
  have "\<bar>a - D / 1000\<bar> \<le> D / 1000 / 2 ^ 53"
    unfolding a_def using D0 by (intro to_double_err) simp
  then have ea: "\<bar>a - D / 1000\<bar> \<le> D / 1000 * u" by (simp add: u_def)
  have "D / 1000 * u < D / 1000" using D0 u(2) by simp
  then have a0: "0 < a" using ea by linarith
  have a1: "a \<le> D / 1000 + D / 1000 * u" using ea by linarith
  have "\<bar>b - a / 60\<bar> \<le> a / 60 / 2 ^ 53"
    unfolding b_def using a0 by (intro to_double_err) simp
  then have eb: "\<bar>b - a / 60\<bar> \<le> a / 60 * u" by (simp add: u_def)
  have "a * u \<le> (D / 1000 + D / 1000 * u) * u"
    using a1 u(1) by (intro mult_right_mono) simp_all
  then have "a / 60 * u \<le> (D / 1000 + D / 1000 * u) * u / 60" by simp
  then have eb': "\<bar>b - a / 60\<bar> \<le> (D / 1000 + D / 1000 * u) * u / 60" using eb by linarith
  have "a / 60 - D / 60000 = (a - D / 1000) / 60" by simp
  then have "\<bar>a / 60 - D / 60000\<bar> = \<bar>a - D / 1000\<bar> / 60"
    by (simp only: abs_divide abs_numeral)
  also have "\<dots> \<le> D / 1000 * u / 60"
    using ea by (intro divide_right_mono) simp_all
  finally have ea': "\<bar>a / 60 - D / 60000\<bar> \<le> D / 1000 * u / 60" .
  have "\<bar>b - D / 60000\<bar> \<le> (D / 1000 + D / 1000 * u) * u / 60 + D / 1000 * u / 60"
    using eb' ea' by linarith
  also have "\<dots> = D * (u * (2 + u)) / 60000" by (simp add: algebra_simps)
  finally have e: "\<bar>b - D / 60000\<bar> \<le> D * (u * (2 + u)) / 60000" .
  have "D * (u * (2 + u)) \<le> (2 ^ 52 - 1) * (u * (2 + u))"
    using D1 u(1) by (intro mult_right_mono) simp_all
  also have "\<dots> < 1" by (simp add: u_def)
  finally have "D * (u * (2 + u)) / 60000 < 1 / 60000" by simp
  then have close: "\<bar>b - D / 60000\<bar> < 1 / 60000" using e by linarith
  have "(of_int (d + 30000) :: rat) = of_int (60000 * F + r)" using dr by simp
  then have "D + 30000 = 60000 * of_int F + of_int r" by (simp add: D_def)
  then have q: "D / 60000 + 1 / 2 = of_int F + of_int r / 60000" by (simp add: field_simps)
  have "(of_int 1 :: rat) \<le> of_int r" using r(1) by (simp only: of_int_le_iff)
  then have r1: "(1 :: rat) \<le> of_int r" by simp
  have "(of_int r :: rat) \<le> of_int 59999" using r(2) by (simp only: of_int_le_iff)
  then have r2: "(of_int r :: rat) \<le> 59999" by simp
  have c1: "b - D / 60000 < 1 / 60000" and c2: "D / 60000 - b < 1 / 60000"
    using close by linarith+
  have lo: "of_int F \<le> b + 1 / 2" using c2 q r1 by linarith
  have hi: "b + 1 / 2 < of_int F + 1" using c1 q r2 by linarith
  have "\<lfloor>b + 1 / 2\<rfloor> = F" using lo hi by (rule floor_unique)
  then show ?thesis
    unfolding x0 a_def [symmetric] b_def [symmetric] Math_round_def F_def .
qed

lemma minutes_exact:
  "0 < d \<Longrightarrow> d < 2 ^ 52 \<Longrightarrow>
     Math_round (to_double (to_double (to_double (of_int d) / 1000) / 60)) = (d + 30000) div 60000"
  using minutes_tie minutes_no_tie by blast

lemma timeDiff_minutes_exact:
  assumes "y < x" "x - y < 2 ^ 52"
  shows "timeDiff_minutes (Some x) (Some y) = Some ((x - y + 30000) div 60000)"
  using minutes_exact [of "x - y"] assms
  by (simp add: timeDiff_minutes_def double_div_def double_sub_def)

section \<open>The ordering check\<close>

lemma date_gt_iff:
  "date_gt a b \<longleftrightarrow> (\<exists>x y. a = Some x \<and> b = Some y \<and> x > y)"
  by (auto simp: date_gt_def split: option.splits)


lemma not_date_gt:
  assumes "\<And>x y. a = Some x \<Longrightarrow> b = Some y \<Longrightarrow> x \<le> y"
  shows "\<not> date_gt a b"
proof
  assume "date_gt a b"
  then obtain x y where "a = Some x" "b = Some y" "x > y"
    unfolding date_gt_iff by blast
  then show False using assms [of x y] by simp
qed

lemma sorting_loop_no_inversion:
  assumes "\<And>j. i \<le> j \<Longrightarrow> j < length articles \<Longrightarrow>
             \<not> date_gt (timestamp (articles ! j)) (timestamp (articles ! (j - 1)))"
  shows "isSorted (sorting_loop articles i v) = isSorted v \<and>
         sortingErrors (sorting_loop articles i v) = sortingErrors v"
  using assms
proof (induction articles i v rule: sorting_loop.induct)
  case (1 articles i v)
  show ?case
  proof (cases "i < length articles")
    case False
    then show ?thesis by (subst sorting_loop.simps, simp)+
  next
    case True
    have ng: "\<not> date_gt (timestamp (articles ! i)) (timestamp (articles ! (i - 1)))"
      using "1.prems" [of i] True by simp
    have later: "\<And>j. i + 1 \<le> j \<Longrightarrow> j < length articles \<Longrightarrow>
             \<not> date_gt (timestamp (articles ! j)) (timestamp (articles ! (j - 1)))"
      using "1.prems" by simp
    show ?thesis
    proof (cases "date_eq (timestamp (articles ! i)) (timestamp (articles ! (i - 1)))")
      case eq: True
      have "sorting_loop articles i v = sorting_loop articles (i + 1)
             (v\<lparr>infos := infos v @ [SkippingIdentical (timeText (articles ! i))
                 (title (articles ! (i - 1))) (title (articles ! i))]\<rparr>)"
        using True eq by (subst sorting_loop.simps) (simp add: Let_def)
      moreover note "1.IH"(1) [OF True refl refl eq later]
      ultimately show ?thesis by simp
    next
      case ne: False
      have "sorting_loop articles i v = sorting_loop articles (i + 1) v"
        using True ne ng by (subst sorting_loop.simps) (simp add: Let_def)
      moreover note "1.IH"(2) [OF True refl refl ne ng later]
      ultimately show ?thesis by simp
    qed
  qed
qed


text \<open>
  C2. For every sequence of entries in which every adjacent pair of instants is
  non-increasing (equal instants included; the sequences of length 0 and 1 have no pair),
  the check returns sorted = true and records no inversion.
\<close>

theorem verify_sorting_non_increasing:
  assumes "\<forall>i x y. 0 < i \<and> i < length articles \<and> timestamp (articles ! i) = Some x \<and>
             timestamp (articles ! (i - 1)) = Some y \<longrightarrow> x \<le> y"
  shows "isSorted (verify_sorting articles) \<and> sortingErrors (verify_sorting articles) = []"
proof -
  have ng: "\<not> date_gt (timestamp (articles ! j)) (timestamp (articles ! (j - 1)))"
    if "1 \<le> j" "j < length articles" for j
  proof (rule not_date_gt)
    fix x y
    assume "timestamp (articles ! j) = Some x" "timestamp (articles ! (j - 1)) = Some y"
    moreover have "0 < j" using that(1) by simp
    ultimately show "x \<le> y" using assms that(2) by blast
  qed
  have "isSorted (sorting_loop articles 1 \<lparr>isSorted = True, sortingErrors = [], infos = []\<rparr>) =
          isSorted \<lparr>isSorted = True, sortingErrors = [], infos = []\<rparr> \<and>
        sortingErrors (sorting_loop articles 1 \<lparr>isSorted = True, sortingErrors = [], infos = []\<rparr>) =
          sortingErrors \<lparr>isSorted = True, sortingErrors = [], infos = []\<rparr>"
    by (rule sorting_loop_no_inversion) (rule ng)
  then show ?thesis unfolding verify_sorting_def by simp
qed

text \<open>The instances: a tie followed by an older entry, the empty sequence, one entry.\<close>

theorem verify_sorting_non_increasing_witness:
  "isSorted (verify_sorting
      [\<lparr>title = Some ''a'', timeText = Some ''10 minutes ago'', timestamp = Some 1699999400000\<rparr>,
       \<lparr>title = Some ''b'', timeText = Some ''10 minutes ago'', timestamp = Some 1699999400000\<rparr>,
       \<lparr>title = Some ''c'', timeText = Some ''1 hour ago'', timestamp = Some 1699996400000\<rparr>]) \<and>
   sortingErrors (verify_sorting
      [\<lparr>title = Some ''a'', timeText = Some ''10 minutes ago'', timestamp = Some 1699999400000\<rparr>,
       \<lparr>title = Some ''b'', timeText = Some ''10 minutes ago'', timestamp = Some 1699999400000\<rparr>,
       \<lparr>title = Some ''c'', timeText = Some ''1 hour ago'', timestamp = Some 1699996400000\<rparr>]) = [] \<and>
   isSorted (verify_sorting []) \<and> sortingErrors (verify_sorting []) = [] \<and>
   isSorted (verify_sorting [\<lparr>title = None, timeText = Some ''just now'', timestamp = None\<rparr>]) \<and>
   sortingErrors (verify_sorting [\<lparr>title = None, timeText = Some ''just now'', timestamp = None\<rparr>]) = []"
proof -
  define l where "l =
      [\<lparr>title = Some ''a'', timeText = Some ''10 minutes ago'', timestamp = Some (1699999400000::int)\<rparr>,
       \<lparr>title = Some ''b'', timeText = Some ''10 minutes ago'', timestamp = Some 1699999400000\<rparr>,
       \<lparr>title = Some ''c'', timeText = Some ''1 hour ago'', timestamp = Some 1699996400000\<rparr>]"
  have h: "\<forall>i x y. 0 < i \<and> i < length l \<and> timestamp (l ! i) = Some x \<and>
             timestamp (l ! (i - 1)) = Some y \<longrightarrow> x \<le> y"
  proof (intro allI impI)
    fix i x y
    assume a: "0 < i \<and> i < length l \<and> timestamp (l ! i) = Some x \<and>
             timestamp (l ! (i - 1)) = Some y"
    moreover have "length l = 3" by (simp add: l_def)
    ultimately have "i = 1 \<or> i = 2" by arith
    then show "x \<le> y"
    proof
      assume "i = 1" then show ?thesis using a by (simp add: l_def)
    next
      assume "i = 2" then show ?thesis using a by (simp add: l_def)
    qed
  qed
  have h0: "\<forall>i x y. 0 < i \<and> i < length ([] :: article list) \<and> timestamp ([] ! i) = Some x \<and>
             timestamp ([] ! (i - 1)) = Some y \<longrightarrow> x \<le> y"
    by simp
  have h1: "\<forall>i x y. 0 < i \<and>
             i < length [\<lparr>title = None, timeText = Some ''just now'', timestamp = None\<rparr>] \<and>
             timestamp ([\<lparr>title = None, timeText = Some ''just now'', timestamp = None\<rparr>] ! i) = Some x \<and>
             timestamp ([\<lparr>title = None, timeText = Some ''just now'', timestamp = None\<rparr>] ! (i - 1)) = Some y
             \<longrightarrow> x \<le> y"
    by simp
  show ?thesis
    using verify_sorting_non_increasing [OF h] verify_sorting_non_increasing [OF h0]
      verify_sorting_non_increasing [OF h1]
    unfolding l_def by (elim conjE) (intro conjI; assumption)
qed




section \<open>Retry\<close>

lemma retry_three:
  "retry E fn maxRetries w =
     (case fn w of
        (Inr x, w1) \<Rightarrow> (Inr (Some x), w1)
      | (Inl e1, w1) \<Rightarrow>
          (case fn (w1\<lparr>reads := reads w1 + 1,
                       trace := trace w1 @
                         [LoggerInfo (clock E (reads w1)) (AttemptFailed 1 1000), Sleep 1000]\<rparr>) of
             (Inr x, w2) \<Rightarrow> (Inr (Some x), w2)
           | (Inl e2, w2) \<Rightarrow>
               (case fn (w2\<lparr>reads := reads w2 + 1,
                            trace := trace w2 @
                              [LoggerInfo (clock E (reads w2)) (AttemptFailed 2 2000), Sleep 2000]\<rparr>) of
                  (Inr x, w3) \<Rightarrow> (Inr (Some x), w3)
                | (Inl e3, w3) \<Rightarrow> (Inl e3, w3))))"
  unfolding retry_def maxRetries_def
  apply (subst retry_loop.simps)
  apply (subst retry_loop.simps)
  apply (subst retry_loop.simps)
  apply (auto simp: retryDelay_def io_bind_def logger_info_def date_now_def emit_def numeral_2_eq_2
      split: prod.splits sum.splits)
  done

lemma goto_exhausted:
  assumes "launch_result E = None" "newContext_result E = None" "newPage_result E = None"
    and "\<forall>k<3. goto_result E k = Some (e k)"
    and "close_result E = None"
  shows "fst (validateHNSorting E initial_world) = Inl (e 2) \<and>
         filter is_attempt (trace (snd (validateHNSorting E initial_world))) =
           [Goto, Sleep 1000, Goto, Sleep 2000, Goto]"
proof -
  have g: "goto_result E 0 = Some (e 0)" "goto_result E (Suc 0) = Some (e (Suc 0))"
    "goto_result E (Suc (Suc 0)) = Some (e 2)"
    using assms(4) by (simp_all add: numeral_2_eq_2)
  show ?thesis
    using assms(1-3,5) g
    by (simp add: validateHNSorting_def io_bind_def date_now_def chromium_launch_def call_def
      emit_def io_return_def io_throw_def try_finally_def try_catch_def run_body_def
      browser_newContext_def context_newPage_def logger_info_def retry_three page_goto_def
      count_event_def run_catch_def captureScreenshot_def logger_error_def run_finally_def
      browser_close_def initial_world_def split: option.splits)
qed

lemma all_exhausted:
  assumes "launch_result E = None" "newContext_result E = None" "newPage_result E = None"
    and "goto_result E 0 = None"
    and "\<forall>k<3. all_result E k = Inl (e k)"
    and "close_result E = None"
  shows "fst (validateHNSorting E initial_world) = Inl (e 2) \<and>
         filter is_attempt (trace (snd (validateHNSorting E initial_world))) =
           [Goto, LocateAll, Sleep 1000, LocateAll, Sleep 2000, LocateAll]"
proof -
  have g: "all_result E 0 = Inl (e 0)" "all_result E (Suc 0) = Inl (e (Suc 0))"
    "all_result E (Suc (Suc 0)) = Inl (e 2)"
    using assms(5) by (simp_all add: numeral_2_eq_2)
  show ?thesis
    using assms(1-4,6) g
    by (simp add: validateHNSorting_def io_bind_def date_now_def chromium_launch_def call_def
      call_value_def locator_all_def
      emit_def io_return_def io_throw_def try_finally_def try_catch_def run_body_def
      browser_newContext_def context_newPage_def logger_info_def retry_three page_goto_def
      count_event_def run_catch_def captureScreenshot_def logger_error_def run_finally_def
      browser_close_def initial_world_def split: option.splits)
qed

lemma collect_stops:
  "i < min articleLimit n \<Longrightarrow> read_row E i w = (Inl err, w') \<Longrightarrow>
     collect E n i arts w = (Inl err, w')"
  by (subst collect.simps) simp

lemmas run_defs =
  validateHNSorting_def io_bind_def date_now_def chromium_launch_def call_def
  call_value_def locator_all_def title_textContent_def age_textContent_def read_row_def
  parseTimeAgo_call_def
  emit_def io_return_def io_throw_def try_finally_def try_catch_def run_body_def
  browser_newContext_def context_newPage_def logger_info_def retry_three page_goto_def
  count_event_def run_catch_def captureScreenshot_def logger_error_def run_finally_def
  browser_close_def initial_world_def quiet_env_def articleLimit_def

text \<open>
  C8, as amended. \<^verbatim>\<open>retry\<close> makes up to 3 attempts, waits 1000 ms after the first
  failure and 2000 ms after the second, and throws the error of the third. The run applies it
  around the navigation and around the listing of the rows: when either fails three times
  the run ends with the last error, thrown again after the catch block. The reading of a row
  is not retried: its failure ends the collection at once.
\<close>

theorem retry_with_backoff:
  "retry E fn maxRetries w =
     (case fn w of
        (Inr x, w1) \<Rightarrow> (Inr (Some x), w1)
      | (Inl e1, w1) \<Rightarrow>
          (case fn (w1\<lparr>reads := reads w1 + 1,
                       trace := trace w1 @
                         [LoggerInfo (clock E (reads w1)) (AttemptFailed 1 1000), Sleep 1000]\<rparr>) of
             (Inr x, w2) \<Rightarrow> (Inr (Some x), w2)
           | (Inl e2, w2) \<Rightarrow>
               (case fn (w2\<lparr>reads := reads w2 + 1,
                            trace := trace w2 @
                              [LoggerInfo (clock E (reads w2)) (AttemptFailed 2 2000), Sleep 2000]\<rparr>) of
                  (Inr x, w3) \<Rightarrow> (Inr (Some x), w3)
                | (Inl e3, w3) \<Rightarrow> (Inl e3, w3)))) \<and>
   (launch_result R = None \<and> newContext_result R = None \<and> newPage_result R = None \<and>
    (\<forall>k<3. goto_result R k = Some (e k)) \<and> close_result R = None \<longrightarrow>
      fst (validateHNSorting R initial_world) = Inl (e 2) \<and>
      filter is_attempt (trace (snd (validateHNSorting R initial_world))) =
        [Goto, Sleep 1000, Goto, Sleep 2000, Goto]) \<and>
   (launch_result R = None \<and> newContext_result R = None \<and> newPage_result R = None \<and>
    goto_result R 0 = None \<and> (\<forall>k<3. all_result R k = Inl (e k)) \<and> close_result R = None \<longrightarrow>
      fst (validateHNSorting R initial_world) = Inl (e 2) \<and>
      filter is_attempt (trace (snd (validateHNSorting R initial_world))) =
        [Goto, LocateAll, Sleep 1000, LocateAll, Sleep 2000, LocateAll]) \<and>
   (i < min articleLimit n \<and> read_row R i v = (Inl err, v') \<longrightarrow>
      collect R n i arts v = (Inl err, v'))"
  using retry_three [of E fn w] goto_exhausted [of R e] all_exhausted [of R e]
    collect_stops [of i n R v err v' arts]
  by (intro conjI impI; (elim conjE)?; assumption?; blast?)

text \<open>
  The instances: a navigation that always fails, a listing that always fails, a title that
  cannot be read.
\<close>

theorem retry_with_backoff_witness:
  "fst (validateHNSorting ((quiet_env (\<lambda>k. 1700000000000) 0 (\<lambda>i. None))
        \<lparr>goto_result := (\<lambda>k. Some (Exn (if k = 2 then ''third'' else ''earlier'')))\<rparr>)
        initial_world) = Inl (Exn ''third'') \<and>
   filter is_attempt (trace (snd (validateHNSorting ((quiet_env (\<lambda>k. 1700000000000) 0 (\<lambda>i. None))
        \<lparr>goto_result := (\<lambda>k. Some (Exn (if k = 2 then ''third'' else ''earlier'')))\<rparr>)
        initial_world))) = [Goto, Sleep 1000, Goto, Sleep 2000, Goto] \<and>
   fst (validateHNSorting ((quiet_env (\<lambda>k. 1700000000000) 0 (\<lambda>i. None))
        \<lparr>all_result := (\<lambda>k. Inl (Exn (if k = 2 then ''third'' else ''earlier'')))\<rparr>)
        initial_world) = Inl (Exn ''third'') \<and>
   filter is_attempt (trace (snd (validateHNSorting ((quiet_env (\<lambda>k. 1700000000000) 0 (\<lambda>i. None))
        \<lparr>all_result := (\<lambda>k. Inl (Exn (if k = 2 then ''third'' else ''earlier'')))\<rparr>)
        initial_world))) = [Goto, LocateAll, Sleep 1000, LocateAll, Sleep 2000, LocateAll] \<and>
   collect ((quiet_env (\<lambda>k. 1700000000000) 1 (\<lambda>i. None))
        \<lparr>title_result := (\<lambda>i. Inl (Exn ''detached''))\<rparr>) 1 0 [] initial_world =
     (Inl (Exn ''detached''), initial_world\<lparr>trace := [TitleText 0]\<rparr>)"
proof -
  define R1 where "R1 = (quiet_env (\<lambda>k. 1700000000000) 0 (\<lambda>i. None))
        \<lparr>goto_result := (\<lambda>k. Some (Exn (if k = 2 then ''third'' else ''earlier'')))\<rparr>"
  define R2 where "R2 = (quiet_env (\<lambda>k. 1700000000000) 0 (\<lambda>i. None))
        \<lparr>all_result := (\<lambda>k. Inl (Exn (if k = 2 then ''third'' else ''earlier'')))\<rparr>"
  define R3 where "R3 = (quiet_env (\<lambda>k. 1700000000000) 1 (\<lambda>i. None))
        \<lparr>title_result := (\<lambda>i. Inl (Exn ''detached''))\<rparr>"
  define e where "e = (\<lambda>k::nat. Exn (if k = 2 then ''third'' else ''earlier''))"
  have h1: "launch_result R1 = None \<and> newContext_result R1 = None \<and> newPage_result R1 = None \<and>
    (\<forall>k<3. goto_result R1 k = Some (e k)) \<and> close_result R1 = None"
    by (simp add: R1_def e_def quiet_env_def)
  have h2: "launch_result R2 = None \<and> newContext_result R2 = None \<and> newPage_result R2 = None \<and>
    goto_result R2 0 = None \<and> (\<forall>k<3. all_result R2 k = Inl (e k)) \<and> close_result R2 = None"
    by (simp add: R2_def e_def quiet_env_def)
  have h3: "0 < min articleLimit 1 \<and>
    read_row R3 0 initial_world = (Inl (Exn ''detached''), initial_world\<lparr>trace := [TitleText 0]\<rparr>)"
    by (simp add: R3_def quiet_env_def articleLimit_def read_row_def title_textContent_def
        call_value_def io_bind_def emit_def io_throw_def initial_world_def)
  have e2: "e 2 = Exn ''third''" by (simp add: e_def)
  have a: "fst (validateHNSorting R1 initial_world) = Inl (e 2) \<and>
      filter is_attempt (trace (snd (validateHNSorting R1 initial_world))) =
        [Goto, Sleep 1000, Goto, Sleep 2000, Goto]"
    by (rule mp [OF conjunct1 [OF conjunct2 [OF retry_with_backoff [where R = R1 and e = e]]] h1])
  have b: "fst (validateHNSorting R2 initial_world) = Inl (e 2) \<and>
      filter is_attempt (trace (snd (validateHNSorting R2 initial_world))) =
        [Goto, LocateAll, Sleep 1000, LocateAll, Sleep 2000, LocateAll]"
    by (rule mp [OF conjunct1 [OF conjunct2 [OF conjunct2
          [OF retry_with_backoff [where R = R2 and e = e]]]] h2])
  have c: "collect R3 1 0 [] initial_world =
      (Inl (Exn ''detached''), initial_world\<lparr>trace := [TitleText 0]\<rparr>)"
    by (rule mp [OF conjunct2 [OF conjunct2 [OF conjunct2
          [OF retry_with_backoff [where R = R3 and i = 0 and n = 1 and v = initial_world
            and err = "Exn ''detached''" and v' = "initial_world\<lparr>trace := [TitleText 0]\<rparr>"
            and arts = "[]"]]]] h3])
  show ?thesis
    using conjunct1 [OF a] conjunct2 [OF a] conjunct1 [OF b] conjunct2 [OF b] c
    unfolding e2 R1_def R2_def R3_def by (intro conjI)
qed

text \<open>
  C8 as stated fails on "the navigation step only": a listing of the rows that fails once is
  tried again after 1000 ms, and the run completes.
\<close>

theorem listing_retried:
  "fst (validateHNSorting
      ((quiet_env (\<lambda>k. 1700000000000) 0 (\<lambda>i. None))
         \<lparr>all_result := (\<lambda>k. if k = 0 then Inl (Exn ''timeout'') else Inr 0)\<rparr>)
      initial_world) = Inr () \<and>
   filter is_attempt (trace (snd (validateHNSorting
      ((quiet_env (\<lambda>k. 1700000000000) 0 (\<lambda>i. None))
         \<lparr>all_result := (\<lambda>k. if k = 0 then Inl (Exn ''timeout'') else Inr 0)\<rparr>)
      initial_world))) = [Goto, LocateAll, Sleep 1000, LocateAll]"
  by (simp add: run_defs collect.simps verify_sorting_def sorting_loop.simps)

section \<open>The clock\<close>

lemma logger_error_all_ok: "fst (logger_error_all E ms w) = Inr ()"
  by (induction ms arbitrary: w)
     (simp_all add: io_return_def io_bind_def logger_error_def date_now_def emit_def)

text \<open>
  A call of \<^verbatim>\<open>parseTimeAgo\<close> on a string returns what the function computes from the label
  and the reading of the clock the call makes.
\<close>

lemma parseTimeAgo_call_result:
  "fst (parseTimeAgo_call E (Some s) w) = Inr (fst (parseTimeAgo (clock E (reads w)) s))"
proof -
  obtain w' where "logger_error_all E (snd (parseTimeAgo (clock E (reads w)) s))
      (w\<lparr>reads := reads w + 1\<rparr>) = (Inr (), w')"
    by (metis logger_error_all_ok prod.collapse)
  then show ?thesis
    by (simp add: parseTimeAgo_call_def io_bind_def date_now_def io_return_def)
qed

lemma five_minutes_ago: "parseTimeAgo now ''5 minutes ago'' = (TimeClip (now - 300000), [])"
proof -
  have m: "str_match ''5 minutes ago'' = Some (''5'', ''minutes'')" by code_simp
  have u: "spec_multiplier (replace_trailing_s (toLowerCase ''minutes'')) = Some 60000" by code_simp
  have v: "radix_value 10 ''5'' = 5" by code_simp
  show ?thesis using parseTimeAgo_clip [OF m u, of now] by (simp add: v)
qed


text \<open>
  C6. The script does not capture one reference instant per run: every call of
  \<^verbatim>\<open>parseTimeAgo\<close> reads the clock. With a clock that advances by a millisecond per
  reading, two rows with the same label "5 minutes ago" get instants one millisecond apart,
  and the run reports the later row as an inversion at position 1.
\<close>

theorem clock_read_per_entry:
  "fst (collect (quiet_env (\<lambda>k. 1700000000000 + int k) 2 (\<lambda>i. Some ''5 minutes ago'')) 2 0 []
        initial_world) =
     Inr [\<lparr>title = Some ''title'', timeText = Some ''5 minutes ago'',
            timestamp = Some 1699999700000\<rparr>,
          \<lparr>title = Some ''title'', timeText = Some ''5 minutes ago'',
            timestamp = Some 1699999700001\<rparr>] \<and>
   filter (\<lambda>ev. case ev of LoggerError t m \<Rightarrow> True | _ \<Rightarrow> False)
     (trace (snd (validateHNSorting
        (quiet_env (\<lambda>k. 1700000000000 + int k) 2 (\<lambda>i. Some ''5 minutes ago'')) initial_world))) =
     [LoggerError 1700000000007 ValidationFailed,
      LoggerError 1700000000008 SortingErrors,
      LoggerError 1700000000009 (PositionTimeDifference 1 (Some 0)),
      LoggerError 1700000000010 (Earlier (Some ''title'') (Some ''5 minutes ago'')),
      LoggerError 1700000000011 (Later (Some ''title'') (Some ''5 minutes ago''))]"
  by (simp add: run_defs collect.simps verify_sorting_def sorting_loop.simps five_minutes_ago
      TimeClip_def date_eq_def date_gt_def timeDiff_minutes_exact)

section \<open>Closing the browser\<close>

lemma try_finally_state: "snd (try_finally m fin w) = snd (fin (snd (m w)))"
  by (simp add: try_finally_def split: prod.splits sum.splits)

lemma run_finally_trace:
  "\<exists>post. trace (snd (run_finally E t0 w)) = trace w @ Close # post \<and>
          (\<forall>ev\<in>set post. \<exists>t d. ev = LoggerInfo t (TotalExecutionTime d))"
  by (simp add: run_finally_def browser_close_def call_def io_bind_def emit_def io_return_def
      io_throw_def logger_info_def date_now_def split: option.splits)

lemma browser_close_trace: "trace (snd (browser_close E w)) = trace w @ [Close]"
  by (simp add: browser_close_def call_def io_bind_def emit_def io_return_def
      io_throw_def split: option.splits)

text \<open>When the launch itself fails there is no session: nothing else is called.\<close>

lemma launch_failure:
  "launch_result E = Some err \<Longrightarrow>
     validateHNSorting E w =
       (Inl err, w\<lparr>reads := reads w + 1, trace := trace w @ [Launch]\<rparr>) \<and>
     validateHNSorting_plain E w = (Inl err, w\<lparr>trace := trace w @ [Launch]\<rparr>)"
  by (simp add: validateHNSorting_def validateHNSorting_plain_def io_bind_def date_now_def
      chromium_launch_def call_def emit_def io_throw_def)

text \<open>
  C9. Once the browser is launched, every run of either script, whatever the outcome of any
  call, ends with the call that closes the browser: after it the trace holds at most the
  line with the total execution time.
\<close>

theorem browser_closed_on_every_path:
  assumes "launch_result E = None"
  shows "(\<exists>pre post. trace (snd (validateHNSorting E w)) = pre @ Close # post \<and>
            (\<forall>ev\<in>set post. \<exists>t d. ev = LoggerInfo t (TotalExecutionTime d))) \<and>
         (\<exists>pre. trace (snd (validateHNSorting_plain E w)) = pre @ [Close])"
proof -
  define w1 where "w1 = w\<lparr>reads := reads w + 1, trace := trace w @ [Launch]\<rparr>"
  define t0 where "t0 = clock E (reads w)"
  have a: "validateHNSorting E w =
      try_finally (try_catch (run_body E t0) (run_catch E)) (run_finally E t0) w1"
    using assms
    by (simp add: validateHNSorting_def io_bind_def date_now_def chromium_launch_def call_def
        emit_def io_return_def w1_def t0_def)
  define w2 where "w2 = w\<lparr>trace := trace w @ [Launch]\<rparr>"
  have b: "validateHNSorting_plain E w =
      try_finally
       (try_catch (run_body_plain E)
          (\<lambda>error. emit (ConsoleError (ErrorOccurredPlain error))))
       (browser_close E) w2"
    using assms
    by (simp add: validateHNSorting_plain_def io_bind_def chromium_launch_def call_def
        emit_def io_return_def w2_def)
  show ?thesis
    unfolding a b try_finally_state
    using run_finally_trace browser_close_trace by blast
qed

text \<open>The instance: a run whose navigation fails at every attempt.\<close>

theorem browser_closed_on_every_path_witness:
  "launch_result ((quiet_env (\<lambda>k. 1700000000000) 0 (\<lambda>i. None))
       \<lparr>goto_result := (\<lambda>k. Some (Exn ''unreachable''))\<rparr>) = None \<and>
   (\<exists>pre post.
      trace (snd (validateHNSorting ((quiet_env (\<lambda>k. 1700000000000) 0 (\<lambda>i. None))
        \<lparr>goto_result := (\<lambda>k. Some (Exn ''unreachable''))\<rparr>) initial_world)) = pre @ Close # post \<and>
      (\<forall>ev\<in>set post. \<exists>t d. ev = LoggerInfo t (TotalExecutionTime d))) \<and>
   (\<exists>pre.
      trace (snd (validateHNSorting_plain ((quiet_env (\<lambda>k. 1700000000000) 0 (\<lambda>i. None))
        \<lparr>goto_result := (\<lambda>k. Some (Exn ''unreachable''))\<rparr>) initial_world)) = pre @ [Close])"
proof -
  have h: "launch_result ((quiet_env (\<lambda>k. 1700000000000) 0 (\<lambda>i. None))
       \<lparr>goto_result := (\<lambda>k. Some (Exn ''unreachable''))\<rparr>) = None"
    by (simp add: quiet_env_def)
  show ?thesis
    using h browser_closed_on_every_path [OF h, of initial_world] by (rule conjI)
qed

end
